theory Spec2Isabelle
  imports Main
begin

text \<open>
  A shallow embedding of the WhatsApp gateway's core services:
  the phone-number formatter and the retry scheduler of \<^verbatim>\<open>GHLWebhookService\<close>,
  the \<^verbatim>\<open>SessionPersistence\<close> operations on the \<^verbatim>\<open>whatsapp_sessions\<close> table,
  the \<^verbatim>\<open>checkSubscriptionLimits\<close> middleware, the \<^verbatim>\<open>connection.update\<close> handler of
  \<^verbatim>\<open>SessionManager\<close> (the copy that writes to the store, and the close branch of the copy
  that does not), the \<^verbatim>\<open>ReconnectionManager\<close> and the \<^verbatim>\<open>MessageQueue\<close>.

  Conventions. Times are milliseconds on one clock (what \<^verbatim>\<open>Date.now()\<close> and SQL
  \<^verbatim>\<open>NOW()\<close> read). A JavaScript \<^verbatim>\<open>Map\<close> is a HOL map. A function that can throw returns
  a sum, \<open>Inl\<close> carrying the error message. \<^verbatim>\<open>setTimeout\<close> appends to a list of pending
  timers. What the outside world decides (whether the database answers, whether a
  send or an HTTP POST succeeds and how long it takes) is an explicit parameter. An
  \<^verbatim>\<open>async\<close> function runs to its end: no other task is interleaved at its awaits, and
  an await takes no time unless it is a delay, a send or a timer.
\<close>

section \<open>Strings and numbers\<close>

text \<open>Decimal rendering of a number inside a template literal.\<close>

fun show_nat :: "nat \<Rightarrow> string" where
  "show_nat n = (if n < 10 then [''0123456789'' ! n]
                 else show_nat (n div 10) @ [''0123456789'' ! (n mod 10)])"

declare show_nat.simps [simp del]

definition show_int :: "int \<Rightarrow> string" where
  "show_int i = (if i < 0 then ''-'' @ show_nat (nat (- i)) else show_nat (nat i))"

text \<open>
  A JavaScript string is a sequence of UTF-16 code units; the regular expression class
  \<^verbatim>\<open>\s\<close> contains code units beyond one byte, so phone numbers are lists of code units.
  \<open>js\<close> embeds an ASCII literal.
\<close>

type_synonym jsstring = "nat list"

definition js :: "string \<Rightarrow> jsstring" where
  "js s = map of_char s"

text \<open>\<^verbatim>\<open>\s\<close>: the ECMAScript WhiteSpace and LineTerminator code points.\<close>

definition is_js_space :: "nat \<Rightarrow> bool" where
  "is_js_space c =
     (c \<in> {9, 10, 11, 12, 13, 32, 160, 5760, 8232, 8233, 8239, 8287, 12288, 65279}
      \<or> (8192 \<le> c \<and> c \<le> 8202))"

text \<open>\<^verbatim>\<open>s.startsWith(p)\<close>.\<close>

fun starts_with :: "'a list \<Rightarrow> 'a list \<Rightarrow> bool" where
  "starts_with s [] = True"
| "starts_with [] (p # ps) = False"
| "starts_with (c # cs) (p # ps) = (c = p \<and> starts_with cs ps)"

text \<open>
  \<^verbatim>\<open>s.replace(pat, '')\<close> with a string pattern: only the first occurrence of \<open>pat\<close>
  is removed.
\<close>

fun replace_first :: "'a list \<Rightarrow> 'a list \<Rightarrow> 'a list" where
  "replace_first pat [] = []"
| "replace_first pat (c # cs) =
     (if starts_with (c # cs) pat then drop (length pat) (c # cs)
      else c # replace_first pat cs)"

text \<open>\<^verbatim>\<open>s.includes(pat)\<close>: \<open>pat\<close> occurs somewhere in \<open>s\<close>.\<close>

fun includes_str :: "'a list \<Rightarrow> 'a list \<Rightarrow> bool" where
  "includes_str [] pat = (pat = [])"
| "includes_str (c # cs) pat = (starts_with (c # cs) pat \<or> includes_str cs pat)"

text \<open>\<^verbatim>\<open>s.replace(/[\s-]/g, '')\<close>: every whitespace code unit and every hyphen is removed.\<close>

definition strip_spaces_hyphens :: "jsstring \<Rightarrow> jsstring" where
  "strip_spaces_hyphens s = filter (\<lambda>c. \<not> (is_js_space c \<or> c = 45)) s"

section \<open>Timers\<close>

text \<open>
  The event loop runs the pending \<^verbatim>\<open>setTimeout\<close> callback that is due first, and among
  callbacks due at the same time the one that was set first. \<open>pick_earliest due ts\<close>
  takes it out of the list of pending timers, which is kept in the order they were set.
\<close>

fun pick_earliest :: "('a \<Rightarrow> nat) \<Rightarrow> 'a list \<Rightarrow> ('a \<times> 'a list) option" where
  "pick_earliest due [] = None"
| "pick_earliest due (t # ts) =
     (case pick_earliest due ts of
        None \<Rightarrow> Some (t, [])
      | Some (t', rest) \<Rightarrow>
          if due t \<le> due t' then Some (t, ts) else Some (t', t # rest))"

section \<open>GHLWebhookService.formatPhoneNumber\<close>

text \<open>
  \<^verbatim>\<open>if (!phoneNumber) return ''\<close>: the empty string is falsy (as are \<^verbatim>\<open>null\<close> and
  \<^verbatim>\<open>undefined\<close>, which are not strings and are left out of the input type).
\<close>

definition formatPhoneNumber :: "jsstring \<Rightarrow> jsstring" where
  "formatPhoneNumber phoneNumber =
     (if phoneNumber = [] then []
      else
        let cleaned = replace_first (js ''@c.us'')
                        (replace_first (js ''@s.whatsapp.net'') phoneNumber);
            cleaned = strip_spaces_hyphens cleaned
        in if \<not> starts_with cleaned (js ''+'') then js ''+'' @ cleaned else cleaned)"

section \<open>The database\<close>

text \<open>
  \<^verbatim>\<open>whatsapp_sessions.status\<close> is a text column checked to be one of four values.
\<close>

datatype session_status = Connecting | Connected | Disconnected | Error

text \<open>One row of \<^verbatim>\<open>whatsapp_sessions\<close>; a nullable column is an option.\<close>

record session_row =
  session_id :: string
  organization_id :: "string option"
  phone_number :: "string option"
  row_status :: "session_status option"
  qr_code :: "string option"
  auth_state :: "string option"
  last_seen_at :: "nat option"
  error_message :: "string option"
  reconnect_attempts :: "nat option"
  updated_at :: "nat option"

text \<open>One row of \<^verbatim>\<open>usage_tracking\<close>.\<close>

record usage_row =
  usage_organization_id :: string
  period_start :: string
  messages_sent :: "int option"
  messages_received :: "int option"

text \<open>One row of \<^verbatim>\<open>organizations\<close>, as the services read it.\<close>

record organization =
  org_id :: string
  max_accounts :: "int option"
  max_messages_per_month :: "int option"
  webhook_url :: "string option"
  ghl_api_key :: "string option"
  ghl_location_id :: "string option"

text \<open>One row of \<^verbatim>\<open>messages\<close>, with the columns the webhook service writes.\<close>

record message_row =
  msg_row_id :: string
  msg_status :: string
  synced_to_ghl :: bool
  ghl_message_id :: "string option"

text \<open>One row of \<^verbatim>\<open>webhook_logs\<close>.\<close>

record webhook_log =
  log_organization_id :: string
  log_message_id :: "string option"
  log_webhook_url :: string
  log_status :: string
  log_response_status :: "nat option"
  log_error_message :: "string option"

text \<open>
  The connection pool and the tables behind it. When \<open>db_fault\<close> is \<open>Some e\<close>, every
  \<^verbatim>\<open>pool.query\<close> rejects with the error \<open>e\<close> and changes nothing.
\<close>

record db =
  db_fault :: "string option"
  whatsapp_sessions :: "session_row list"
  usage_tracking :: "usage_row list"
  organizations :: "organization list"
  messages :: "message_row list"
  webhook_logs :: "webhook_log list"

text \<open>
  \<^verbatim>\<open>UPDATE whatsapp_sessions SET ... WHERE session_id = $k\<close>: every row with that
  key is rewritten by \<open>f\<close>; the query throws when the pool is at fault.
\<close>

definition update_session_rows ::
  "string \<Rightarrow> (session_row \<Rightarrow> session_row) \<Rightarrow> db \<Rightarrow> string + db" where
  "update_session_rows sid f d =
     (case db_fault d of
        Some e \<Rightarrow> Inl e
      | None \<Rightarrow> Inr (d\<lparr>whatsapp_sessions :=
                       map (\<lambda>r. if session_id r = sid then f r else r) (whatsapp_sessions d)\<rparr>))"

text \<open>\<^verbatim>\<open>SELECT ... FROM whatsapp_sessions WHERE ...\<close>.\<close>

definition select_session_rows :: "(session_row \<Rightarrow> bool) \<Rightarrow> db \<Rightarrow> string + session_row list" where
  "select_session_rows p d =
     (case db_fault d of
        Some e \<Rightarrow> Inl e
      | None \<Rightarrow> Inr (filter p (whatsapp_sessions d)))"

text \<open>The row of a session, when the table has one.\<close>

definition session_row_of :: "db \<Rightarrow> string \<Rightarrow> session_row option" where
  "session_row_of d sid = find (\<lambda>r. session_id r = sid) (whatsapp_sessions d)"

section \<open>SessionPersistence\<close>

text \<open>
  \<^verbatim>\<open>saveAuthState\<close> logs a query error and throws it again.
\<close>

definition saveAuthState :: "nat \<Rightarrow> string \<Rightarrow> string \<Rightarrow> db \<Rightarrow> (string + unit) \<times> db" where
  "saveAuthState now sid authStateJson d =
     (case update_session_rows sid
             (\<lambda>r. r\<lparr>auth_state := Some authStateJson, updated_at := Some now\<rparr>) d of
        Inr d' \<Rightarrow> (Inr (), d')
      | Inl e \<Rightarrow> (Inl e, d))"

text \<open>
  \<^verbatim>\<open>loadAuthState\<close>: the first row's \<^verbatim>\<open>auth_state\<close> when there is a row and the
  value is not null (a stored blob is a JSON object, which is truthy), otherwise
  \<^verbatim>\<open>null\<close>; the catch block returns \<^verbatim>\<open>null\<close> too.
\<close>

definition loadAuthState :: "string \<Rightarrow> db \<Rightarrow> string + string option" where
  "loadAuthState sid d =
     (case select_session_rows (\<lambda>r. session_id r = sid) d of
        Inr rows \<Rightarrow>
          (case rows of
             r # _ \<Rightarrow> (case auth_state r of Some a \<Rightarrow> Inr (Some a) | None \<Rightarrow> Inr None)
           | [] \<Rightarrow> Inr None)
      | Inl e \<Rightarrow> Inr None)"

text \<open>
  \<^verbatim>\<open>updateSessionStatus(sessionId, status, phoneNumber = null, errorMessage = null)\<close>:
  \<^verbatim>\<open>phone_number = COALESCE($2, phone_number)\<close>, \<^verbatim>\<open>error_message = $3\<close>,
  \<^verbatim>\<open>last_seen_at = NOW()\<close>, \<^verbatim>\<open>updated_at = NOW()\<close>. The catch block only logs.
\<close>

definition updateSessionStatus ::
  "nat \<Rightarrow> string \<Rightarrow> session_status \<Rightarrow> string option \<Rightarrow> string option \<Rightarrow> db
     \<Rightarrow> (string + unit) \<times> db" where
  "updateSessionStatus now sid status phoneNumber errorMessage d =
     (case update_session_rows sid
             (\<lambda>r. r\<lparr>row_status := Some status,
                      phone_number := (case phoneNumber of Some p \<Rightarrow> Some p
                                       | None \<Rightarrow> phone_number r),
                      error_message := errorMessage,
                      last_seen_at := Some now,
                      updated_at := Some now\<rparr>) d of
        Inr d' \<Rightarrow> (Inr (), d')
      | Inl e \<Rightarrow> (Inr (), d))"

text \<open>\<^verbatim>\<open>saveQRCode\<close>; the catch block only logs.\<close>

definition saveQRCode :: "nat \<Rightarrow> string \<Rightarrow> string \<Rightarrow> db \<Rightarrow> (string + unit) \<times> db" where
  "saveQRCode now sid qrCode d =
     (case update_session_rows sid
             (\<lambda>r. r\<lparr>qr_code := Some qrCode, updated_at := Some now\<rparr>) d of
        Inr d' \<Rightarrow> (Inr (), d')
      | Inl e \<Rightarrow> (Inr (), d))"

text \<open>
  \<^verbatim>\<open>getActiveSessions\<close>: the rows with status \<^verbatim>\<open>connected\<close> or \<^verbatim>\<open>connecting\<close> and a
  non-null \<^verbatim>\<open>auth_state\<close>; the catch block returns the empty array.
\<close>

definition getActiveSessions :: "db \<Rightarrow> string + session_row list" where
  "getActiveSessions d =
     (case select_session_rows
             (\<lambda>r. (row_status r = Some Connected \<or> row_status r = Some Connecting)
                   \<and> auth_state r \<noteq> None) d of
        Inr rows \<Rightarrow> Inr rows
      | Inl e \<Rightarrow> Inr [])"

text \<open>\<^verbatim>\<open>updateReconnectAttempts\<close>; the catch block only logs.\<close>

definition updateReconnectAttempts :: "string \<Rightarrow> nat \<Rightarrow> db \<Rightarrow> (string + unit) \<times> db" where
  "updateReconnectAttempts sid n d =
     (case update_session_rows sid (\<lambda>r. r\<lparr>reconnect_attempts := Some n\<rparr>) d of
        Inr d' \<Rightarrow> (Inr (), d')
      | Inl e \<Rightarrow> (Inr (), d))"

definition resetReconnectAttempts :: "string \<Rightarrow> db \<Rightarrow> (string + unit) \<times> db" where
  "resetReconnectAttempts sid d = updateReconnectAttempts sid 0 d"

section \<open>The checkSubscriptionLimits middleware\<close>

text \<open>The JSON values the middleware puts in a response body.\<close>

datatype json = JString string | JNumber int | JNull

text \<open>
  What the middleware does with the request: it calls \<^verbatim>\<open>next()\<close>, or it answers with a
  status code and a JSON object (the fields in the order they are written).
\<close>

datatype middleware_result = Next | Response nat "(string \<times> json) list"

text \<open>A nullable integer column as JavaScript reads it.\<close>

definition to_number :: "int option \<Rightarrow> int" where
  \<comment> \<open>\<^verbatim>\<open>n >= null\<close> compares with \<^verbatim>\<open>0\<close>\<close>
  "to_number v = (case v of None \<Rightarrow> 0 | Some i \<Rightarrow> i)"

definition to_json :: "int option \<Rightarrow> json" where
  "to_json v = (case v of None \<Rightarrow> JNull | Some i \<Rightarrow> JNumber i)"

definition template_number :: "int option \<Rightarrow> string" where
  \<comment> \<open>a number or \<^verbatim>\<open>null\<close> inside a template literal\<close>
  "template_number v = (case v of None \<Rightarrow> ''null'' | Some i \<Rightarrow> show_int i)"

text \<open>
  \<^verbatim>\<open>SELECT messages_sent, messages_received FROM usage_tracking
  WHERE organization_id = $1 AND period_start = $2::date\<close>.
\<close>

definition select_usage_rows :: "string \<Rightarrow> string \<Rightarrow> db \<Rightarrow> string + usage_row list" where
  "select_usage_rows oid month d =
     (case db_fault d of
        Some e \<Rightarrow> Inl e
      | None \<Rightarrow> Inr (filter (\<lambda>u. usage_organization_id u = oid \<and> period_start u = month)
                      (usage_tracking d)))"

text \<open>
  \<open>currentMonth\<close> is the first day of the current month, which the code derives from
  the clock. The first query counts the rows with \<^verbatim>\<open>organization_id = $1 AND status != 'error'\<close>;
  SQL drops a row whose status or organization is null from such a comparison. Any
  exception ends in the catch block, which answers 500.
\<close>

definition checkSubscriptionLimits :: "string \<Rightarrow> organization \<Rightarrow> db \<Rightarrow> middleware_result" where
  "checkSubscriptionLimits currentMonth org d =
     (case select_session_rows
             (\<lambda>r. organization_id r = Some (org_id org)
                   \<and> row_status r \<noteq> None \<and> row_status r \<noteq> Some Error) d of
        Inl e \<Rightarrow> Response 500 [(''error'', JString ''Failed to check limits'')]
      | Inr sessions \<Rightarrow>
          let sessionCount = int (length sessions) in
          if sessionCount \<ge> to_number (max_accounts org) then
            Response 403
              [(''error'', JString ''Account limit reached''),
               (''message'', JString (''Your plan allows '' @ template_number (max_accounts org)
                                        @ '' accounts. Please upgrade.'')),
               (''current'', JNumber sessionCount),
               (''limit'', to_json (max_accounts org))]
          else
            (case select_usage_rows (org_id org) currentMonth d of
               Inl e \<Rightarrow> Response 500 [(''error'', JString ''Failed to check limits'')]
             | Inr usage \<Rightarrow>
                 (case usage of
                    [] \<Rightarrow> Next
                  | u # _ \<Rightarrow>
                      let totalMessages = to_number (messages_sent u)
                                          + to_number (messages_received u) in
                      if totalMessages \<ge> to_number (max_messages_per_month org) then
                        Response 429
                          [(''error'', JString ''Message limit reached''),
                           (''message'',
                              JString (''Your plan allows ''
                                         @ template_number (max_messages_per_month org)
                                         @ '' messages per month.'')),
                           (''current'', JNumber totalMessages),
                           (''limit'', to_json (max_messages_per_month org))]
                      else Next)))"

section \<open>SessionManager (the copy with persistence)\<close>

text \<open>
  An entry of \<^verbatim>\<open>SessionManager.sessions\<close>. The socket itself is outside the model; what
  it reports arrives as \<^verbatim>\<open>connection.update\<close> events.
\<close>

record session_handle =
  handle_status :: session_status
  handle_phoneNumber :: "string option"
  createdAt :: nat

text \<open>The callback bag of \<^verbatim>\<open>createSession\<close>: which of the optional callbacks are given.\<close>

record callbacks =
  has_onQR :: bool
  has_onConnected :: bool
  has_onDisconnect :: bool

definition no_callbacks :: callbacks where
  "no_callbacks = \<lparr>has_onQR = False, has_onConnected = False, has_onDisconnect = False\<rparr>"

text \<open>A call of one of the callbacks, with its argument.\<close>

datatype callback_call = OnQR string | OnConnected string | OnDisconnect

text \<open>
  The three closures the two classes hand to \<^verbatim>\<open>setTimeout\<close>:
  \<^verbatim>\<open>() => this.createSession(sessionId, callbacks)\<close> of the session manager, and the
  callbacks of \<^verbatim>\<open>handleDisconnection\<close> and \<^verbatim>\<open>handleRateLimit\<close> of the reconnection manager.
\<close>

datatype timer_action =
    RecreateSession string callbacks
  | ReconnectSession string
  | RateLimitRecovery string

record timer =
  set_at :: nat
  delay_ms :: nat
  action :: timer_action

text \<open>
  The process state the two classes share: the clock, the session registry, the
  connection pool, the reconnection manager's attempt counters, the pending timers (in
  the order they were set) and the callbacks called so far.
\<close>

record world =
  clock :: nat
  sessions :: "string \<rightharpoonup> session_handle"
  pool :: db
  reconnectionAttempts :: "string \<rightharpoonup> nat"
  timers :: "timer list"
  callback_log :: "callback_call list"

text \<open>
  \<^verbatim>\<open>createSession\<close> throws when the registry has the id, and otherwise registers a handle
  with status \<^verbatim>\<open>connecting\<close>. \<open>lib_error\<close> is what \<^verbatim>\<open>useMultiFileAuthState\<close> or
  \<^verbatim>\<open>makeWASocket\<close> throw, if they do.
\<close>

definition createSession :: "string option \<Rightarrow> string \<Rightarrow> world \<Rightarrow> (string + unit) \<times> world" where
  "createSession lib_error sid w =
     (if sessions w sid \<noteq> None then (Inl (''Session '' @ sid @ '' already exists''), w)
      else case lib_error of
        Some e \<Rightarrow> (Inl e, w)
      | None \<Rightarrow>
          (Inr (), w\<lparr>sessions := (sessions w)(sid \<mapsto>
             \<lparr>handle_status = Connecting, handle_phoneNumber = None, createdAt = clock w\<rparr>)\<rparr>))"

text \<open>The \<^verbatim>\<open>connection\<close> field of a Baileys connection update.\<close>

datatype connection_state = Close | Open | Connecting_State

text \<open>
  A \<^verbatim>\<open>connection.update\<close> event: \<^verbatim>\<open>connection\<close>, \<^verbatim>\<open>qr\<close>, and of \<^verbatim>\<open>lastDisconnect\<close> the
  two values the handler reads through optional chaining,
  \<^verbatim>\<open>lastDisconnect?.error?.output?.statusCode\<close> and \<^verbatim>\<open>lastDisconnect?.error?.message\<close>.
\<close>

record connection_update =
  update_connection :: "connection_state option"
  update_qr :: "string option"
  disconnect_statusCode :: "nat option"
  disconnect_message :: "string option"

text \<open>\<^verbatim>\<open>if (qr) { await saveQRCode(sessionId, qr); if (callbacks.onQR) callbacks.onQR(qr) }\<close>.\<close>

definition on_qr :: "string \<Rightarrow> callbacks \<Rightarrow> connection_update \<Rightarrow> world \<Rightarrow> world" where
  "on_qr sid cb u w =
     (case update_qr u of
        None \<Rightarrow> w
      | Some q \<Rightarrow>
          if q = [] then w
          else
            let w1 = w\<lparr>pool := snd (saveQRCode (clock w) sid q (pool w))\<rparr>
            in if has_onQR cb then w1\<lparr>callback_log := callback_log w1 @ [OnQR q]\<rparr> else w1)"

text \<open>
  The \<^verbatim>\<open>connection === 'close'\<close> branch. \<open>loggedOut\<close> is the library's
  \<^verbatim>\<open>DisconnectReason.loggedOut\<close>. A close for any other reason writes the status and sets
  a timer of 3000 ms that calls \<^verbatim>\<open>createSession\<close> again; a logout writes the status,
  deletes the registry entry and calls \<^verbatim>\<open>onDisconnect\<close> when it is given.
\<close>

definition on_close :: "nat \<Rightarrow> string \<Rightarrow> callbacks \<Rightarrow> connection_update \<Rightarrow> world \<Rightarrow> world" where
  "on_close loggedOut sid cb u w =
     (let shouldReconnect = (disconnect_statusCode u \<noteq> Some loggedOut) in
      if shouldReconnect then
        w\<lparr>pool := snd (updateSessionStatus (clock w) sid Disconnected None
                         (disconnect_message u) (pool w)),
          timers := timers w @
            [\<lparr>set_at = clock w, delay_ms = 3000, action = RecreateSession sid cb\<rparr>]\<rparr>
      else
        let w1 = w\<lparr>pool := snd (updateSessionStatus (clock w) sid Disconnected None
                                 (Some ''Logged out'') (pool w)),
                  sessions := (sessions w)(sid := None)\<rparr>
        in if has_onDisconnect cb then w1\<lparr>callback_log := callback_log w1 @ [OnDisconnect]\<rparr>
           else w1)"

text \<open>
  The same branch in the copy of \<^verbatim>\<open>SessionManager\<close> without persistence
  (\<^verbatim>\<open>backend/src/whatsapp/SessionManager.js\<close>): the same timer, registry deletion and
  callback, and no write to the store.
\<close>

definition on_close_plain ::
  "nat \<Rightarrow> string \<Rightarrow> callbacks \<Rightarrow> connection_update \<Rightarrow> world \<Rightarrow> world" where
  "on_close_plain loggedOut sid cb u w =
     (let shouldReconnect = (disconnect_statusCode u \<noteq> Some loggedOut) in
      if shouldReconnect then
        w\<lparr>timers := timers w @
            [\<lparr>set_at = clock w, delay_ms = 3000, action = RecreateSession sid cb\<rparr>]\<rparr>
      else
        let w1 = w\<lparr>sessions := (sessions w)(sid := None)\<rparr>
        in if has_onDisconnect cb then w1\<lparr>callback_log := callback_log w1 @ [OnDisconnect]\<rparr>
           else w1)"

text \<open>
  The \<^verbatim>\<open>connection === 'open'\<close> branch; \<open>user_id\<close> is \<^verbatim>\<open>sock.user.id\<close>. Reading the
  registry entry of a session that has none throws a \<^verbatim>\<open>TypeError\<close>.
\<close>

definition on_open :: "string \<Rightarrow> string \<Rightarrow> callbacks \<Rightarrow> world \<Rightarrow> (string + unit) \<times> world" where
  "on_open user_id sid cb w =
     (case sessions w sid of
        None \<Rightarrow> (Inl ''TypeError'', w)
      | Some h \<Rightarrow>
          let phone = takeWhile (\<lambda>c. c \<noteq> CHR '':'') user_id;
              w1 = w\<lparr>sessions := (sessions w)(sid \<mapsto>
                       h\<lparr>handle_status := Connected, handle_phoneNumber := Some phone\<rparr>)\<rparr>;
              w2 = w1\<lparr>pool := snd (updateSessionStatus (clock w1) sid Connected (Some phone)
                                     None (pool w1))\<rparr>;
              w3 = w2\<lparr>pool := snd (resetReconnectAttempts sid (pool w2))\<rparr>
          in (Inr (), if has_onConnected cb
                      then w3\<lparr>callback_log := callback_log w3 @ [OnConnected phone]\<rparr>
                      else w3))"

text \<open>The handler of \<^verbatim>\<open>connection.update\<close>: the three blocks in the order of the source.\<close>

definition connection_update ::
  "nat \<Rightarrow> string \<Rightarrow> string \<Rightarrow> callbacks \<Rightarrow> connection_update \<Rightarrow> world
     \<Rightarrow> (string + unit) \<times> world" where
  "connection_update loggedOut user_id sid cb u w =
     (let w1 = on_qr sid cb u w;
          w2 = (if update_connection u = Some Close then on_close loggedOut sid cb u w1 else w1)
      in if update_connection u = Some Open then on_open user_id sid cb w2 else (Inr (), w2))"

section \<open>ReconnectionManager\<close>

definition maxAttempts :: nat where "maxAttempts = 5"
definition baseDelay :: nat where "baseDelay = 5000"
definition maxDelay :: nat where "maxDelay = 300000"

text \<open>\<^verbatim>\<open>this.reconnectionAttempts.get(sessionId) || 0\<close>.\<close>

definition getAttempts :: "world \<Rightarrow> string \<Rightarrow> nat" where
  "getAttempts w sid = (case reconnectionAttempts w sid of Some n \<Rightarrow> n | None \<Rightarrow> 0)"

text \<open>
  \<^verbatim>\<open>handleDisconnection\<close>, up to and including the \<^verbatim>\<open>setTimeout\<close> call. At the cap it
  writes status \<^verbatim>\<open>error\<close>, deletes the counter and returns. Below it, it computes the
  delay, stores the incremented counter in the map and in the row, writes status
  \<^verbatim>\<open>connecting\<close> and sets the timer.
\<close>

definition handleDisconnection :: "string \<Rightarrow> world \<Rightarrow> world" where
  "handleDisconnection sid w =
     (let attempts = getAttempts w sid in
      if attempts \<ge> maxAttempts then
        w\<lparr>pool := snd (updateSessionStatus (clock w) sid Error None
                         (Some (''Max reconnection attempts exceeded ('' @ show_nat maxAttempts
                                  @ '')'')) (pool w)),
          reconnectionAttempts := (reconnectionAttempts w)(sid := None)\<rparr>
      else
        let delay = min (baseDelay * 2 ^ attempts) maxDelay;
            d1 = snd (updateReconnectAttempts sid (attempts + 1) (pool w));
            d2 = snd (updateSessionStatus (clock w) sid Connecting None None d1)
        in w\<lparr>pool := d2,
             reconnectionAttempts := (reconnectionAttempts w)(sid \<mapsto> attempts + 1),
             timers := timers w @
               [\<lparr>set_at = clock w, delay_ms = delay, action = ReconnectSession sid\<rparr>]\<rparr>)"

text \<open>
  \<^verbatim>\<open>handleRateLimit\<close>: status \<^verbatim>\<open>connecting\<close> with a message, and a timer of 15 minutes.
\<close>

definition handleRateLimit :: "string \<Rightarrow> world \<Rightarrow> world" where
  "handleRateLimit sid w =
     w\<lparr>pool := snd (updateSessionStatus (clock w) sid Connecting None
                      (Some ''Rate limited by WhatsApp. Waiting 15 minutes...'') (pool w)),
       timers := timers w @
         [\<lparr>set_at = clock w, delay_ms = 15 * 60 * 1000, action = RateLimitRecovery sid\<rparr>]\<rparr>"

text \<open>
  What a timer does when it fires. The reconnection callback calls
  \<^verbatim>\<open>createSession(sessionId)\<close>; on success it deletes the counter and resets the row's
  counter, on an exception it calls \<^verbatim>\<open>handleDisconnection\<close> again. The session manager's
  own timer calls \<^verbatim>\<open>createSession\<close> and drops the result.
\<close>

definition run_timer :: "string option \<Rightarrow> timer_action \<Rightarrow> world \<Rightarrow> world" where
  "run_timer lib_error a w =
     (case a of
        RecreateSession sid cb \<Rightarrow> snd (createSession lib_error sid w)
      | ReconnectSession sid \<Rightarrow>
          (case createSession lib_error sid w of
             (Inr _, w1) \<Rightarrow>
               w1\<lparr>reconnectionAttempts := (reconnectionAttempts w1)(sid := None),
                  pool := snd (resetReconnectAttempts sid (pool w1))\<rparr>
           | (Inl e, w1) \<Rightarrow> handleDisconnection sid w1)
      | RateLimitRecovery sid \<Rightarrow> handleDisconnection sid w)"

text \<open>
  The pending timer that is due first (the one set first among equals) fires: it leaves
  the list, the clock moves to its due time (never backwards) and its callback runs.
\<close>

definition fire_next :: "string option \<Rightarrow> world \<Rightarrow> world" where
  "fire_next lib_error w =
     (case pick_earliest (\<lambda>t. set_at t + delay_ms t) (timers w) of
        None \<Rightarrow> w
      | Some (t, ts) \<Rightarrow>
          run_timer lib_error (action t)
            (w\<lparr>timers := ts, clock := max (clock w) (set_at t + delay_ms t)\<rparr>))"

text \<open>The delays of the pending timers, in the order they were set.\<close>

definition pending_delays :: "world \<Rightarrow> nat list" where
  "pending_delays w = map delay_ms (timers w)"

section \<open>MessageQueue\<close>

text \<open>
  A queued message. \<^verbatim>\<open>type\<close> may be absent; \<^verbatim>\<open>sendMessage\<close> reads it with the default
  \<^verbatim>\<open>'text'\<close>.
\<close>

record queue_item =
  item_id :: string
  item_jid :: string
  item_content :: string
  item_type :: "string option"
  enqueuedAt :: nat
  item_attempts :: nat

text \<open>The per-session counter \<^verbatim>\<open>{ sent, lastReset }\<close>.\<close>

record send_stats =
  sent :: nat
  lastReset :: nat

text \<open>The log lines of the worker and of \<^verbatim>\<open>sendImmediate\<close>.\<close>

datatype queue_event =
    LogQueued string
  | LogProcessing string
  | LogRateLimit string
  | LogSent string
  | LogSendFailed string string
  | LogMaxAttempts string
  | LogCompleted string
  | LogBypass string string

text \<open>
  The state of a \<^verbatim>\<open>MessageQueue\<close>: its three maps, the clock, the number of calls of
  \<^verbatim>\<open>sessionManager.sendMessage\<close> made so far, the calls of the queue's own \<^verbatim>\<open>sendMessage\<close>
  (when, and for which queue id) and the log.
\<close>

record mq =
  mq_clock :: nat
  queues :: "string \<rightharpoonup> queue_item list"
  processing :: "string \<rightharpoonup> bool"
  stats :: "string \<rightharpoonup> send_stats"
  transport_calls :: nat
  attempt_log :: "(nat \<times> string) list"
  queue_log :: "queue_event list"

text \<open>
  \<^verbatim>\<open>sessionManager.sendMessage\<close> is the environment: its \<open>k\<close>-th call throws the error
  \<open>e\<close> or succeeds, after some milliseconds.
\<close>

type_synonym transport = "nat \<Rightarrow> string option \<times> nat"

definition messagesPerMinute :: nat where "messagesPerMinute = 20"
definition delayBetweenMessages :: nat where "delayBetweenMessages = 3000"

text \<open>\<^verbatim>\<open>await this.delay(ms)\<close>.\<close>

definition delay :: "nat \<Rightarrow> mq \<Rightarrow> mq" where
  "delay ms st = st\<lparr>mq_clock := mq_clock st + ms\<rparr>"

definition log_event :: "queue_event \<Rightarrow> mq \<Rightarrow> mq" where
  "log_event ev st = st\<lparr>queue_log := queue_log st @ [ev]\<rparr>"

text \<open>The queue of a session, empty when the map has none.\<close>

definition queue_of :: "mq \<Rightarrow> string \<Rightarrow> queue_item list" where
  "queue_of st sid = (case queues st sid of None \<Rightarrow> [] | Some q \<Rightarrow> q)"

text \<open>
  \<^verbatim>\<open>enqueue\<close>: the item is appended with \<^verbatim>\<open>attempts: 0\<close>. \<open>qid\<close> is the fresh id the code
  builds from the clock and a random number. The call then starts \<^verbatim>\<open>processQueue\<close>,
  unawaited, unless the session is already being processed; the worker is run
  separately here.
\<close>

definition enqueue ::
  "string \<Rightarrow> string \<Rightarrow> string \<Rightarrow> string \<Rightarrow> string option \<Rightarrow> mq \<Rightarrow> string \<times> mq" where
  "enqueue qid sid jid content ty st =
     (let queueItem = \<lparr>item_id = qid, item_jid = jid, item_content = content, item_type = ty,
                         enqueuedAt = mq_clock st, item_attempts = 0\<rparr>
      in (qid, log_event (LogQueued qid)
                 (st\<lparr>queues := (queues st)(sid \<mapsto> queue_of st sid @ [queueItem])\<rparr>)))"

text \<open>One call of \<^verbatim>\<open>sessionManager.sendMessage\<close>.\<close>

definition session_send :: "transport \<Rightarrow> mq \<Rightarrow> (string + unit) \<times> mq" where
  "session_send tr st =
     (case tr (transport_calls st) of
        (outcome, took) \<Rightarrow>
          ((case outcome of None \<Rightarrow> Inr () | Some e \<Rightarrow> Inl e),
           st\<lparr>transport_calls := transport_calls st + 1, mq_clock := mq_clock st + took\<rparr>))"

text \<open>
  The queue's \<^verbatim>\<open>sendMessage\<close>: a text message goes to the session manager, any other
  type throws.
\<close>

definition sendMessage :: "transport \<Rightarrow> string \<Rightarrow> queue_item \<Rightarrow> mq \<Rightarrow> (string + unit) \<times> mq" where
  "sendMessage tr sid m st =
     (let st1 = st\<lparr>attempt_log := attempt_log st @ [(mq_clock st, item_id m)]\<rparr> in
      case item_type m of
        None \<Rightarrow> session_send tr st1
      | Some ty \<Rightarrow>
          if ty = ''text'' then session_send tr st1
          else (Inl (''Unsupported message type: '' @ ty), st1))"

text \<open>
  \<^verbatim>\<open>shouldThrottle\<close>: no counter, no throttling; a counter whose \<^verbatim>\<open>lastReset\<close> is more
  than a minute old is replaced by \<^verbatim>\<open>{ sent: 0, lastReset: now }\<close>; otherwise the
  answer is \<^verbatim>\<open>stats.sent >= messagesPerMinute\<close>.
\<close>

definition shouldThrottle :: "string \<Rightarrow> mq \<Rightarrow> bool \<times> mq" where
  "shouldThrottle sid st =
     (case stats st sid of
        None \<Rightarrow> (False, st)
      | Some s \<Rightarrow>
          if int (lastReset s) < int (mq_clock st) - 60000
          then (False, st\<lparr>stats := (stats st)(sid \<mapsto> \<lparr>sent = 0, lastReset = mq_clock st\<rparr>)\<rparr>)
          else (sent s \<ge> messagesPerMinute, st))"

text \<open>\<^verbatim>\<open>updateStats\<close>: the counter (a new one when there is none) with \<^verbatim>\<open>sent\<close> incremented.\<close>

definition updateStats :: "string \<Rightarrow> mq \<Rightarrow> mq" where
  "updateStats sid st =
     (let s = (case stats st sid of
                 Some s \<Rightarrow> s
               | None \<Rightarrow> \<lparr>sent = 0, lastReset = mq_clock st\<rparr>)
      in st\<lparr>stats := (stats st)(sid \<mapsto> s\<lparr>sent := sent s + 1\<rparr>)\<rparr>)"

text \<open>
  One pass through the body of the \<^verbatim>\<open>while (queue.length > 0)\<close> loop of \<^verbatim>\<open>processQueue\<close>;
  with an empty queue the loop is over and nothing happens. The head is peeked; when
  throttled the worker waits a minute and starts over; otherwise it sends. After a
  success the head is removed, the counter updated, and the worker waits
  \<^verbatim>\<open>delayBetweenMessages\<close>. After a failure \<^verbatim>\<open>attempts\<close> is incremented; at 3 the head is
  removed, below 3 it is moved to the tail and the worker waits 5 seconds.
\<close>

definition worker_iteration :: "transport \<Rightarrow> string \<Rightarrow> mq \<Rightarrow> mq" where
  "worker_iteration tr sid st =
     (case queue_of st sid of
        [] \<Rightarrow> st
      | m # rest \<Rightarrow>
          (case shouldThrottle sid st of
             (True, st1) \<Rightarrow> delay 60000 (log_event (LogRateLimit sid) st1)
           | (False, st1) \<Rightarrow>
               (case sendMessage tr sid m st1 of
                  (Inr _, st2) \<Rightarrow>
                    delay delayBetweenMessages
                      (log_event (LogSent (item_id m))
                         (updateStats sid (st2\<lparr>queues := (queues st2)(sid \<mapsto> rest)\<rparr>)))
                | (Inl e, st2) \<Rightarrow>
                    let m' = m\<lparr>item_attempts := item_attempts m + 1\<rparr>;
                        st3 = log_event (LogSendFailed (item_id m) e) st2
                    in if item_attempts m' \<ge> 3
                       then log_event (LogMaxAttempts (item_id m))
                              (st3\<lparr>queues := (queues st3)(sid \<mapsto> rest)\<rparr>)
                       else delay 5000 (st3\<lparr>queues := (queues st3)(sid \<mapsto> rest @ [m'])\<rparr>))))"

text \<open>
  The loop with fuel: \<open>None\<close> when the queue is not empty after \<open>fuel\<close> passes.
\<close>

fun process_loop :: "nat \<Rightarrow> transport \<Rightarrow> string \<Rightarrow> mq \<Rightarrow> mq option" where
  "process_loop 0 tr sid st = (if queue_of st sid = [] then Some st else None)"
| "process_loop (Suc fuel) tr sid st =
     (if queue_of st sid = [] then Some st
      else process_loop fuel tr sid (worker_iteration tr sid st))"

text \<open>\<^verbatim>\<open>processQueue\<close>.\<close>

definition processQueue :: "nat \<Rightarrow> transport \<Rightarrow> string \<Rightarrow> mq \<Rightarrow> mq option" where
  "processQueue fuel tr sid st =
     (if queue_of st sid = [] then Some (st\<lparr>processing := (processing st)(sid \<mapsto> False)\<rparr>)
      else
        map_option
          (\<lambda>st'. log_event (LogCompleted sid)
                   (st'\<lparr>processing := (processing st')(sid \<mapsto> False)\<rparr>))
          (process_loop fuel tr sid
             (log_event (LogProcessing sid)
                (st\<lparr>processing := (processing st)(sid \<mapsto> True)\<rparr>))))"

text \<open>
  \<^verbatim>\<open>sendImmediate\<close>: no queue and no throttle check; the counter is updated after a
  successful send.
\<close>

definition sendImmediate ::
  "transport \<Rightarrow> string \<Rightarrow> string \<Rightarrow> string \<Rightarrow> mq \<Rightarrow> (string + unit) \<times> mq" where
  "sendImmediate tr sid jid content st =
     (case session_send tr (log_event (LogBypass sid jid) st) of
        (Inr _, st1) \<Rightarrow> (Inr (), updateStats sid st1)
      | (Inl e, st1) \<Rightarrow> (Inl e, st1))"

text \<open>The number of sends counted for a session: 0 when it has no counter.\<close>

definition sent_count :: "mq \<Rightarrow> string \<Rightarrow> nat" where
  "sent_count st sid = (case stats st sid of None \<Rightarrow> 0 | Some s \<Rightarrow> sent s)"

section \<open>GHLWebhookService: delivery and retries\<close>

text \<open>
  The message handed to \<^verbatim>\<open>sendMessageToGHL\<close>: \<^verbatim>\<open>id\<close> is the row id in \<^verbatim>\<open>messages\<close> (absent
  when the caller did not persist the message), \<^verbatim>\<open>message_id\<close> the WhatsApp id.
\<close>

record message_data =
  md_id :: "string option"
  md_message_id :: string
  md_from_number :: jsstring
  md_to_number :: jsstring
  md_text :: string

text \<open>The \<^verbatim>\<open>data\<close> part of the envelope, and one call of \<^verbatim>\<open>axios.post\<close>.\<close>

record webhook_payload =
  payload_from :: jsstring
  payload_to :: jsstring
  payload_message :: string
  payload_messageId :: string

record http_post =
  post_at :: nat
  post_url :: string
  post_body :: webhook_payload

text \<open>
  What the endpoint does with a POST: it answers with a status code (and, in the body,
  possibly an id for the message), or there is no answer (a network error or the
  10-second timeout). \<^verbatim>\<open>axios\<close> resolves for a 2xx status and throws otherwise.
\<close>

datatype http_outcome = Http nat "string option" | NetworkError

type_synonym endpoint = "nat \<Rightarrow> http_outcome"

text \<open>
  A pending retry: the closure \<^verbatim>\<open>scheduleRetry\<close> hands to \<^verbatim>\<open>setTimeout\<close> holds the
  organization, the message and \<^verbatim>\<open>retryCount\<close>.
\<close>

record retry_timer =
  fires_at :: nat
  retry_org :: string
  retry_message :: message_data
  retryCount :: nat

text \<open>
  The state of the service: the clock, the connection pool, the pending retries (in
  the order they were set) and the POSTs made so far.
\<close>

record ghl =
  ghl_clock :: nat
  ghl_pool :: db
  ghl_timers :: "retry_timer list"
  posts :: "http_post list"

definition maxRetries :: nat where "maxRetries = 3"
definition retryDelay :: nat where "retryDelay = 2000"

text \<open>\<^verbatim>\<open>getOrgConfig\<close>: throws when the query fails or finds no row.\<close>

definition getOrgConfig :: "string \<Rightarrow> db \<Rightarrow> string + organization" where
  "getOrgConfig oid d =
     (case db_fault d of
        Some e \<Rightarrow> Inl e
      | None \<Rightarrow>
          (case find (\<lambda>org. org_id org = oid) (organizations d) of
             None \<Rightarrow> Inl ''Organization not found''
           | Some org \<Rightarrow> Inr org))"

text \<open>\<^verbatim>\<open>logWebhook\<close>: one row more in \<^verbatim>\<open>webhook_logs\<close>; the catch block only logs.\<close>

definition logWebhook :: "webhook_log \<Rightarrow> db \<Rightarrow> db" where
  "logWebhook entry d =
     (case db_fault d of
        Some e \<Rightarrow> d
      | None \<Rightarrow> d\<lparr>webhook_logs := webhook_logs d @ [entry]\<rparr>)"

text \<open>\<^verbatim>\<open>UPDATE messages SET ... WHERE id = $k\<close>.\<close>

definition update_message_rows ::
  "string \<Rightarrow> (message_row \<Rightarrow> message_row) \<Rightarrow> db \<Rightarrow> string + db" where
  "update_message_rows mid f d =
     (case db_fault d of
        Some e \<Rightarrow> Inl e
      | None \<Rightarrow> Inr (d\<lparr>messages :=
                       map (\<lambda>r. if msg_row_id r = mid then f r else r) (messages d)\<rparr>))"

text \<open>
  \<^verbatim>\<open>scheduleRetry(organizationId, messageData, retryCount = 0)\<close>. At \<^verbatim>\<open>maxRetries\<close> it
  marks the message \<^verbatim>\<open>failed\<close> (when it has a row id) and returns; below, it sets a timer of
  \<^verbatim>\<open>retryDelay * 2^retryCount\<close> ms.
\<close>

definition scheduleRetry :: "string \<Rightarrow> message_data \<Rightarrow> nat \<Rightarrow> ghl \<Rightarrow> (string + unit) \<times> ghl" where
  "scheduleRetry oid md rc st =
     (if rc \<ge> maxRetries then
        (case md_id md of
           None \<Rightarrow> (Inr (), st)
         | Some mid \<Rightarrow>
             (case update_message_rows mid (\<lambda>r. r\<lparr>msg_status := ''failed''\<rparr>) (ghl_pool st) of
                Inl e \<Rightarrow> (Inl e, st)
              | Inr d \<Rightarrow> (Inr (), st\<lparr>ghl_pool := d\<rparr>)))
      else
        (Inr (), st\<lparr>ghl_timers := ghl_timers st @
           [\<lparr>fires_at = ghl_clock st + retryDelay * 2 ^ rc, retry_org = oid,
             retry_message = md, retryCount = rc\<rparr>]\<rparr>))"

text \<open>
  The catch block of \<^verbatim>\<open>sendMessageToGHL\<close>: a \<^verbatim>\<open>failed\<close> row in \<^verbatim>\<open>webhook_logs\<close>, then
  \<^verbatim>\<open>scheduleRetry(organizationId, messageData)\<close> with the default \<^verbatim>\<open>retryCount = 0\<close>,
  then the error is thrown again.
\<close>

definition send_failed ::
  "string \<Rightarrow> message_data \<Rightarrow> string \<Rightarrow> nat option \<Rightarrow> string \<Rightarrow> ghl \<Rightarrow> (string + unit) \<times> ghl" where
  "send_failed oid md url response_status err st =
     (let st1 = st\<lparr>ghl_pool := logWebhook
                   \<lparr>log_organization_id = oid, log_message_id = md_id md, log_webhook_url = url,
                    log_status = ''failed'', log_response_status = response_status,
                    log_error_message = Some err\<rparr> (ghl_pool st)\<rparr>;
          st2 = snd (scheduleRetry oid md 0 st1)
      in (Inl err, st2))"

text \<open>
  \<^verbatim>\<open>sendMessageToGHL\<close>. Without a webhook URL it returns \<^verbatim>\<open>null\<close>. Otherwise it POSTs the
  envelope (the \<open>k\<close>-th POST gets the endpoint's \<open>k\<close>-th outcome); after a 2xx answer it
  writes a \<^verbatim>\<open>success\<close> log row and marks the message synced, and an exception of that
  update lands in the same catch block as a failed POST.
\<close>

definition sendMessageToGHL :: "endpoint \<Rightarrow> string \<Rightarrow> message_data \<Rightarrow> ghl \<Rightarrow> (string + unit) \<times> ghl" where
  "sendMessageToGHL ep oid md st =
     (case getOrgConfig oid (ghl_pool st) of
        Inl e \<Rightarrow> (Inl e, st)
      | Inr org \<Rightarrow>
          (case webhook_url org of
             None \<Rightarrow> (Inr (), st)
           | Some url \<Rightarrow>
               if url = [] then (Inr (), st)
               else
                 let payload = \<lparr>payload_from = formatPhoneNumber (md_from_number md),
                                 payload_to = formatPhoneNumber (md_to_number md),
                                 payload_message = md_text md,
                                 payload_messageId = md_message_id md\<rparr>;
                     outcome = ep (length (posts st));
                     st1 = st\<lparr>posts := posts st @
                             [\<lparr>post_at = ghl_clock st, post_url = url, post_body = payload\<rparr>]\<rparr>
                 in (case outcome of
                       NetworkError \<Rightarrow> send_failed oid md url None ''Network Error'' st1
                     | Http code response_id \<Rightarrow>
                         if 200 \<le> code \<and> code < 300 then
                           let st2 = st1\<lparr>ghl_pool := logWebhook
                                 \<lparr>log_organization_id = oid, log_message_id = md_id md,
                                  log_webhook_url = url, log_status = ''success'',
                                  log_response_status = Some code,
                                  log_error_message = None\<rparr> (ghl_pool st1)\<rparr>
                           in (case md_id md of
                                 None \<Rightarrow> (Inr (), st2)
                               | Some mid \<Rightarrow>
                                   (case update_message_rows mid
                                           (\<lambda>r. r\<lparr>synced_to_ghl := True,
                                                   ghl_message_id := response_id\<rparr>)
                                           (ghl_pool st2) of
                                      Inr d \<Rightarrow> (Inr (), st2\<lparr>ghl_pool := d\<rparr>)
                                    | Inl e \<Rightarrow> send_failed oid md url None e st2))
                         else send_failed oid md url (Some code)
                                (''Request failed with status code '' @ show_nat code) st1)))"

text \<open>
  The callback of a retry timer: \<^verbatim>\<open>sendMessageToGHL\<close> again, and when that throws,
  \<^verbatim>\<open>scheduleRetry\<close> with \<^verbatim>\<open>retryCount + 1\<close>.
\<close>

definition retry_callback :: "endpoint \<Rightarrow> retry_timer \<Rightarrow> ghl \<Rightarrow> ghl" where
  "retry_callback ep t st =
     (case sendMessageToGHL ep (retry_org t) (retry_message t) st of
        (Inr _, st1) \<Rightarrow> st1
      | (Inl e, st1) \<Rightarrow> snd (scheduleRetry (retry_org t) (retry_message t) (retryCount t + 1) st1))"

text \<open>The retry timer that is due first fires; without a pending timer nothing happens.\<close>

definition retry_fire_next :: "endpoint \<Rightarrow> ghl \<Rightarrow> ghl" where
  "retry_fire_next ep st =
     (case pick_earliest fires_at (ghl_timers st) of
        None \<Rightarrow> st
      | Some (t, ts) \<Rightarrow>
          retry_callback ep t (st\<lparr>ghl_timers := ts, ghl_clock := max (ghl_clock st) (fires_at t)\<rparr>))"

text \<open>The endpoint never answers with a 2xx status.\<close>

definition always_fails :: "endpoint \<Rightarrow> bool" where
  "always_fails ep = (\<forall>k. case ep k of Http code _ \<Rightarrow> \<not> (200 \<le> code \<and> code < 300)
                                   | NetworkError \<Rightarrow> True)"

text \<open>
  The store answers, knows the organization and has a non-empty webhook URL for it.
\<close>

definition deliverable :: "string \<Rightarrow> db \<Rightarrow> bool" where
  "deliverable oid d =
     (db_fault d = None \<and>
      (case find (\<lambda>org. org_id org = oid) (organizations d) of
         None \<Rightarrow> False
       | Some org \<Rightarrow> (case webhook_url org of None \<Rightarrow> False | Some url \<Rightarrow> url \<noteq> [])))"

section \<open>Example states\<close>

text \<open>A store with one connected session of organization \<open>org1\<close>.\<close>

definition example_row :: session_row where
  "example_row = \<lparr>session_id = ''s1'', organization_id = Some ''org1'',
     phone_number = Some ''5551234567'', row_status = Some Connected, qr_code = None,
     auth_state = Some ''{}'', last_seen_at = Some 10, error_message = None,
     reconnect_attempts = Some 0, updated_at = Some 10\<rparr>"

definition example_db :: db where
  "example_db = \<lparr>db_fault = None, whatsapp_sessions = [example_row], usage_tracking = [],
     organizations = [], messages = [], webhook_logs = []\<rparr>"

text \<open>The same store with the pool at fault.\<close>

definition faulty_db :: db where
  "faulty_db = example_db\<lparr>db_fault := Some ''connection refused''\<rparr>"

text \<open>An organization on the free tier: one account.\<close>

definition example_org :: organization where
  "example_org = \<lparr>org_id = ''org1'', max_accounts = Some 1,
     max_messages_per_month = Some 1000, webhook_url = Some ''https://hook.test/in'',
     ghl_api_key = None, ghl_location_id = None\<rparr>"

text \<open>A process with the example store, no live session and no pending timer.\<close>

definition example_world :: world where
  "example_world = \<lparr>clock = 1000, sessions = Map.empty, pool = example_db,
     reconnectionAttempts = Map.empty, timers = [], callback_log = []\<rparr>"

text \<open>The same with the reconnection counter of \<open>s1\<close> at \<open>n\<close>.\<close>

definition world_with_attempts :: "nat \<Rightarrow> world" where
  "world_with_attempts n = example_world\<lparr>reconnectionAttempts := [''s1'' \<mapsto> n]\<rparr>"

text \<open>
  A process whose session \<open>s1\<close> is live, a full callback bag, and two close events: a lost
  connection (status code 428) and a logout (401).
\<close>

definition live_world :: world where
  "live_world = example_world\<lparr>sessions :=
     [''s1'' \<mapsto> \<lparr>handle_status = Connected, handle_phoneNumber = Some ''5551234567'',
                  createdAt = 10\<rparr>]\<rparr>"

definition all_callbacks :: callbacks where
  "all_callbacks = \<lparr>has_onQR = True, has_onConnected = True, has_onDisconnect = True\<rparr>"

definition connection_lost :: connection_update where
  "connection_lost = \<lparr>update_connection = Some Close, update_qr = None,
     disconnect_statusCode = Some 428, disconnect_message = Some ''Connection Closed''\<rparr>"

definition logged_out :: connection_update where
  "logged_out = \<lparr>update_connection = Some Close, update_qr = None,
     disconnect_statusCode = Some 401, disconnect_message = Some ''Logged Out''\<rparr>"

text \<open>
  Queue states: a text message with a given id and attempt count; a queue object with
  nothing in it at time 0; a burst of \<open>n\<close> text messages queued for \<open>s1\<close> at time 0;
  a transport on which every send succeeds after 1 ms.
\<close>

definition text_item :: "string \<Rightarrow> nat \<Rightarrow> queue_item" where
  "text_item qid n = \<lparr>item_id = qid, item_jid = ''972501234567@s.whatsapp.net'',
     item_content = ''hi'', item_type = Some ''text'', enqueuedAt = 0, item_attempts = n\<rparr>"

definition idle_queue :: mq where
  "idle_queue = \<lparr>mq_clock = 0, queues = Map.empty, processing = Map.empty, stats = Map.empty,
     transport_calls = 0, attempt_log = [], queue_log = []\<rparr>"

definition burst :: "nat \<Rightarrow> mq" where
  "burst n = idle_queue\<lparr>queues := [''s1'' \<mapsto> map (\<lambda>i. text_item (show_nat i) 0) [0..<n]]\<rparr>"

definition one_ms :: transport where
  "one_ms = (\<lambda>k. (None, 1))"

text \<open>
  One message queued for \<open>s1\<close> at time \<open>now\<close>, with \<open>k\<close> sends counted in a window
  that opened at \<open>opened\<close>.
\<close>

definition counted :: "nat \<Rightarrow> nat \<Rightarrow> nat \<Rightarrow> mq" where
  "counted k opened now = (burst 1)\<lparr>mq_clock := now,
     stats := [''s1'' \<mapsto> \<lparr>sent = k, lastReset = opened\<rparr>]\<rparr>"

text \<open>
  Webhook delivery: an inbound message with a row in \<^verbatim>\<open>messages\<close>, a store that knows the
  organization and its webhook URL, a service with nothing pending at time 0, and an
  endpoint that answers every POST with status 500.
\<close>

definition example_message :: message_data where
  "example_message = \<lparr>md_id = Some ''msg-1'', md_message_id = ''m1'',
     md_from_number = js ''5551234567@s.whatsapp.net'',
     md_to_number = js ''972501234567@s.whatsapp.net'', md_text = ''hi''\<rparr>"

definition webhook_db :: db where
  "webhook_db = example_db\<lparr>organizations := [example_org],
     messages := [\<lparr>msg_row_id = ''msg-1'', msg_status = ''sent'', synced_to_ghl = False,
                   ghl_message_id = None\<rparr>]\<rparr>"

definition idle_ghl :: ghl where
  "idle_ghl = \<lparr>ghl_clock = 0, ghl_pool = webhook_db, ghl_timers = [], posts = []\<rparr>"

definition always_500 :: endpoint where
  "always_500 = (\<lambda>k. Http 500 None)"

section \<open>Verification: phone-number formatting\<close>

lemma starts_with_length: "starts_with s pat \<Longrightarrow> length pat \<le> length s"
  by (induction s pat rule: starts_with.induct) auto

lemma replace_first_absent: "\<not> includes_str s pat \<Longrightarrow> replace_first pat s = s"
  by (induction s) auto

lemma replace_first_length_le: "length (replace_first pat s) \<le> length s"
  by (induction s) auto

lemma replace_first_present:
  "includes_str s pat \<Longrightarrow> pat \<noteq> [] \<Longrightarrow> length (replace_first pat s) < length s"
proof (induction s)
  case Nil
  then show ?case by simp
next
  case (Cons c cs)
  show ?case
  proof (cases "starts_with (c # cs) pat")
    case True
    with Cons.prems(2) show ?thesis
      using starts_with_length [OF True] by (cases pat) auto
  next
    case False
    with Cons show ?thesis by auto
  qed
qed

lemma replace_first_set: "set (replace_first pat s) \<subseteq> set s"
proof (induction s)
  case Nil
  show ?case by simp
next
  case (Cons c cs)
  have "set (drop (length pat) (c # cs)) \<subseteq> set (c # cs)"
    by (rule set_drop_subset)
  with Cons show ?case by auto
qed

lemma strip_clean:
  "\<forall>c \<in> set s. \<not> (is_js_space c \<or> c = 45) \<Longrightarrow> strip_spaces_hyphens s = s"
  by (simp add: strip_spaces_hyphens_def)

lemma strip_set: "c \<in> set (strip_spaces_hyphens s) \<Longrightarrow> \<not> (is_js_space c \<or> c = 45)"
  by (simp add: strip_spaces_hyphens_def)

lemma plus_clean: "\<not> (is_js_space 43 \<or> (43::nat) = 45)"
  by (simp add: is_js_space_def)

text \<open>
  A formatted non-empty number starts with \<open>+\<close> (code unit 43) and holds no whitespace
  and no hyphen.
\<close>

lemma formatPhoneNumber_shape:
  assumes "x \<noteq> []"
  shows "\<exists>r. formatPhoneNumber x = 43 # r \<and> (\<forall>c \<in> set r. \<not> (is_js_space c \<or> c = 45))"
proof -
  define cl where "cl = strip_spaces_hyphens
    (replace_first (js ''@c.us'') (replace_first (js ''@s.whatsapp.net'') x))"
  have cl: "\<forall>c \<in> set cl. \<not> (is_js_space c \<or> c = 45)"
    unfolding cl_def using strip_set by blast
  have f: "formatPhoneNumber x = (if \<not> starts_with cl [43] then 43 # cl else cl)"
    using assms by (simp add: formatPhoneNumber_def cl_def js_def Let_def)
  show ?thesis
  proof (cases "starts_with cl [43]")
    case True
    then obtain r where "cl = 43 # r" by (cases cl) auto
    with cl f True show ?thesis by auto
  next
    case False
    with cl f show ?thesis by auto
  qed
qed

text \<open>Formatting such a number again only removes suffix occurrences that are left.\<close>

lemma formatPhoneNumber_again:
  assumes r: "\<forall>c \<in> set r. \<not> (is_js_space c \<or> c = 45)"
  shows "formatPhoneNumber (43 # r) =
    43 # replace_first (js ''@c.us'') (replace_first (js ''@s.whatsapp.net'') r)"
proof -
  let ?z = "replace_first (js ''@c.us'') (replace_first (js ''@s.whatsapp.net'') r)"
  have "set ?z \<subseteq> set r"
    using replace_first_set [of "js ''@c.us''"] replace_first_set [of "js ''@s.whatsapp.net''" r]
    by blast
  with r have "\<forall>c \<in> set (43 # ?z). \<not> (is_js_space c \<or> c = 45)"
    using plus_clean by auto
  then have s: "strip_spaces_hyphens (43 # ?z) = 43 # ?z"
    by (rule strip_clean)
  have e: "replace_first (js ''@c.us'') (replace_first (js ''@s.whatsapp.net'') (43 # r)) = 43 # ?z"
    by (simp add: js_def)
  show ?thesis
    unfolding formatPhoneNumber_def Let_def e s by (simp add: js_def)
qed

text \<open>
  C3 (as stated): \<open>norm (norm x) = norm x\<close> for every input string. It fails: only the
  first occurrence of each suffix is removed, so an input that carries a suffix twice
  is formatted to a string that still carries it once, and formatting that string
  removes it.
\<close>

theorem formatPhoneNumber_not_idempotent:
  "formatPhoneNumber (formatPhoneNumber (js ''972501234567@c.us@c.us''))
     \<noteq> formatPhoneNumber (js ''972501234567@c.us@c.us'')"
  by (simp add: formatPhoneNumber_def js_def strip_spaces_hyphens_def is_js_space_def)

text \<open>
  C3 (amended): formatting is idempotent at \<open>x\<close> exactly when the formatted \<open>x\<close> holds
  neither \<^verbatim>\<open>@s.whatsapp.net\<close> nor \<^verbatim>\<open>@c.us\<close> any more.
\<close>

theorem formatPhoneNumber_idempotent_iff:
  "formatPhoneNumber (formatPhoneNumber x) = formatPhoneNumber x \<longleftrightarrow>
     \<not> includes_str (formatPhoneNumber x) (js ''@s.whatsapp.net'') \<and>
     \<not> includes_str (formatPhoneNumber x) (js ''@c.us'')"
proof (cases "x = []")
  case True
  then show ?thesis by (simp add: formatPhoneNumber_def js_def)
next
  case False
  let ?p1 = "js ''@s.whatsapp.net''" and ?p2 = "js ''@c.us''"
  from formatPhoneNumber_shape [OF False] obtain r
    where y: "formatPhoneNumber x = 43 # r"
      and r: "\<forall>c \<in> set r. \<not> (is_js_space c \<or> c = 45)" by blast
  have again: "formatPhoneNumber (43 # r) = 43 # replace_first ?p2 (replace_first ?p1 r)"
    using r by (rule formatPhoneNumber_again)
  have i1: "includes_str (43 # r) ?p1 = includes_str r ?p1"
    by (simp add: js_def)
  have i2: "includes_str (43 # r) ?p2 = includes_str r ?p2"
    by (simp add: js_def)
  have ne: "?p1 \<noteq> []" "?p2 \<noteq> []" by (simp_all add: js_def)
  show ?thesis
  proof
    assume "formatPhoneNumber (formatPhoneNumber x) = formatPhoneNumber x"
    with y again have fp: "replace_first ?p2 (replace_first ?p1 r) = r" by simp
    have n1: "\<not> includes_str r ?p1"
    proof
      assume "includes_str r ?p1"
      then have "length (replace_first ?p1 r) < length r"
        using ne(1) by (rule replace_first_present)
      moreover have "length (replace_first ?p2 (replace_first ?p1 r))
                       \<le> length (replace_first ?p1 r)"
        by (rule replace_first_length_le)
      ultimately show False using fp by simp
    qed
    then have "replace_first ?p1 r = r" by (rule replace_first_absent)
    with fp have fp2: "replace_first ?p2 r = r" by simp
    have n2: "\<not> includes_str r ?p2"
    proof
      assume "includes_str r ?p2"
      then have "length (replace_first ?p2 r) < length r"
        using ne(2) by (rule replace_first_present)
      with fp2 show False by simp
    qed
    from n1 n2 show "\<not> includes_str (formatPhoneNumber x) ?p1
                     \<and> \<not> includes_str (formatPhoneNumber x) ?p2"
      unfolding y i1 i2 by simp
  next
    assume "\<not> includes_str (formatPhoneNumber x) ?p1
            \<and> \<not> includes_str (formatPhoneNumber x) ?p2"
    then have "\<not> includes_str r ?p1" "\<not> includes_str r ?p2"
      unfolding y i1 i2 by simp_all
    then have "replace_first ?p1 r = r" "replace_first ?p2 r = r"
      by (simp_all add: replace_first_absent)
    with y again show "formatPhoneNumber (formatPhoneNumber x) = formatPhoneNumber x"
      by simp
  qed
qed

text \<open>The amended statement at a JID with spaces and hyphens: formatting it twice changes nothing.\<close>

theorem formatPhoneNumber_idempotent_iff_witness:
  "formatPhoneNumber (formatPhoneNumber (js ''972 50-123 4567@s.whatsapp.net''))
     = formatPhoneNumber (js ''972 50-123 4567@s.whatsapp.net'')"
  using formatPhoneNumber_idempotent_iff [of "js ''972 50-123 4567@s.whatsapp.net''"]
  by (simp add: formatPhoneNumber_def js_def strip_spaces_hyphens_def is_js_space_def)

section \<open>Verification: SessionPersistence\<close>

lemma find_map_update:
  assumes "\<And>r. session_id (f r) = session_id r"
  shows "find (\<lambda>r. session_id r = sid) (map (\<lambda>r. if session_id r = sid then f r else r) rows)
           = map_option f (find (\<lambda>r. session_id r = sid) rows)"
  using assms by (induction rows) auto

lemma session_row_of_update:
  assumes "db_fault d = None" and "\<And>r. session_id (f r) = session_id r"
  shows "update_session_rows sid f d = Inr (d\<lparr>whatsapp_sessions :=
           map (\<lambda>r. if session_id r = sid then f r else r) (whatsapp_sessions d)\<rparr>)"
    and "\<And>d'. update_session_rows sid f d = Inr d' \<Longrightarrow>
           session_row_of d' sid = map_option f (session_row_of d sid)"
  using assms by (auto simp: update_session_rows_def session_row_of_def find_map_update)

lemma session_row_of_update_other:
  assumes "update_session_rows sid f d = Inr d'" and "sid' \<noteq> sid"
    and "\<And>r. session_id (f r) = session_id r"
  shows "session_row_of d' sid' = session_row_of d sid'"
proof -
  have "find (\<lambda>r. session_id r = sid') (map (\<lambda>r. if session_id r = sid then f r else r) rows)
          = find (\<lambda>r. session_id r = sid') rows" for rows
    using assms(2,3) by (induction rows) auto
  with assms(1) show ?thesis
    by (auto simp: update_session_rows_def session_row_of_def split: option.splits)
qed

lemma updateSessionStatus_ok:
  assumes "db_fault d = None"
  shows "fst (updateSessionStatus now sid status phoneNumber errorMessage d) = Inr ()"
    and "session_row_of (snd (updateSessionStatus now sid status phoneNumber errorMessage d)) sid
           = map_option (\<lambda>r. r\<lparr>row_status := Some status,
                      phone_number := (case phoneNumber of Some p \<Rightarrow> Some p
                                       | None \<Rightarrow> phone_number r),
                      error_message := errorMessage,
                      last_seen_at := Some now,
                      updated_at := Some now\<rparr>) (session_row_of d sid)"
    and "db_fault (snd (updateSessionStatus now sid status phoneNumber errorMessage d)) = None"
    and "sid' \<noteq> sid \<Longrightarrow>
           session_row_of (snd (updateSessionStatus now sid status phoneNumber errorMessage d)) sid'
             = session_row_of d sid'"
proof -
  let ?f = "\<lambda>r. r\<lparr>row_status := Some status,
                      phone_number := (case phoneNumber of Some p \<Rightarrow> Some p
                                       | None \<Rightarrow> phone_number r),
                      error_message := errorMessage,
                      last_seen_at := Some now,
                      updated_at := Some now\<rparr>"
  have id: "\<And>r. session_id (?f r) = session_id r" by simp
  from session_row_of_update(1) [OF assms id]
  obtain d' where u: "update_session_rows sid ?f d = Inr d'" by blast
  have r: "session_row_of d' sid = map_option ?f (session_row_of d sid)"
    by (rule session_row_of_update(2) [OF assms id u])
  have s: "updateSessionStatus now sid status phoneNumber errorMessage d = (Inr (), d')"
    by (simp add: updateSessionStatus_def u)
  show "fst (updateSessionStatus now sid status phoneNumber errorMessage d) = Inr ()"
    by (simp add: s)
  show "session_row_of (snd (updateSessionStatus now sid status phoneNumber errorMessage d)) sid
           = map_option ?f (session_row_of d sid)"
    by (simp add: s r)
  show "db_fault (snd (updateSessionStatus now sid status phoneNumber errorMessage d)) = None"
    using u assms by (auto simp: s update_session_rows_def)
  show "sid' \<noteq> sid \<Longrightarrow>
           session_row_of (snd (updateSessionStatus now sid status phoneNumber errorMessage d)) sid'
             = session_row_of d sid'"
    using session_row_of_update_other [OF u _ id] by (simp add: s)
qed

text \<open>
  C7: when the query runs, \<^verbatim>\<open>updateSessionStatus\<close> with a null phone number sets the
  status, the error message and \<^verbatim>\<open>last_seen_at\<close> of the session's row and keeps the stored
  phone number; a non-null phone number replaces it. The other columns of the row and
  the rows of other sessions stay as they were.
\<close>

theorem updateSessionStatus_phone_number:
  assumes "db_fault d = None" and "session_row_of d sid = Some r"
  shows "\<exists>r'. session_row_of (snd (updateSessionStatus now sid status phoneNumber errorMessage d)) sid
                 = Some r'
            \<and> row_status r' = Some status
            \<and> error_message r' = errorMessage
            \<and> last_seen_at r' = Some now
            \<and> (phoneNumber = None \<longrightarrow> phone_number r' = phone_number r)
            \<and> (\<forall>p. phoneNumber = Some p \<longrightarrow> phone_number r' = Some p)
            \<and> session_id r' = session_id r \<and> organization_id r' = organization_id r
            \<and> qr_code r' = qr_code r \<and> auth_state r' = auth_state r
            \<and> reconnect_attempts r' = reconnect_attempts r
            \<and> (\<forall>sid'. sid' \<noteq> sid \<longrightarrow>
                 session_row_of
                   (snd (updateSessionStatus now sid status phoneNumber errorMessage d)) sid'
                   = session_row_of d sid')"
  using updateSessionStatus_ok(2) [OF assms(1), of now sid status phoneNumber errorMessage]
        updateSessionStatus_ok(4) [OF assms(1), of _ sid now status phoneNumber errorMessage]
        assms(2)
  by auto

text \<open>
  C7 at a stored row: a status update without a phone number keeps \<open>5551234567\<close>, one
  with a phone number overwrites it.
\<close>

theorem updateSessionStatus_phone_number_witness:
  "map_option phone_number
     (session_row_of (snd (updateSessionStatus 99 ''s1'' Disconnected None (Some ''closed'')
        example_db)) ''s1'') = Some (Some ''5551234567'')
   \<and> map_option phone_number
     (session_row_of (snd (updateSessionStatus 99 ''s1'' Connected (Some ''5550000000'') None
        example_db)) ''s1'') = Some (Some ''5550000000'')"
proof -
  have f: "db_fault example_db = None" by (simp add: example_db_def)
  have r: "session_row_of example_db ''s1'' = Some example_row"
    by (simp add: example_db_def example_row_def session_row_of_def)
  have p: "phone_number example_row = Some ''5551234567''" by (simp add: example_row_def)
  from updateSessionStatus_phone_number [OF f r, of 99 Disconnected None "Some ''closed''"]
       updateSessionStatus_phone_number [OF f r, of 99 Connected "Some ''5550000000''" None] p
  show ?thesis by auto
qed



text \<open>
  C9: when the query fails, \<^verbatim>\<open>loadAuthState\<close> returns \<^verbatim>\<open>null\<close>, \<^verbatim>\<open>getActiveSessions\<close>
  returns the empty array and \<^verbatim>\<open>updateSessionStatus\<close> returns normally, leaving the
  store as it was; none of them throws.
\<close>

theorem persistence_swallows_query_errors:
  assumes "db_fault d = Some e"
  shows "loadAuthState sid d = Inr None
       \<and> getActiveSessions d = Inr []
       \<and> updateSessionStatus now sid status phoneNumber errorMessage d = (Inr (), d)"
  using assms
  by (simp add: loadAuthState_def getActiveSessions_def updateSessionStatus_def
        select_session_rows_def update_session_rows_def)

theorem persistence_swallows_query_errors_witness:
  "loadAuthState ''s1'' faulty_db = Inr None
     \<and> getActiveSessions faulty_db = Inr []
     \<and> updateSessionStatus 99 ''s1'' Error None (Some ''boom'') faulty_db = (Inr (), faulty_db)"
proof -
  have "db_fault faulty_db = Some ''connection refused''"
    by (simp add: faulty_db_def)
  from persistence_swallows_query_errors [OF this] show ?thesis by blast
qed

text \<open>By contrast \<^verbatim>\<open>saveAuthState\<close> throws the error again.\<close>

lemma saveAuthState_rethrows:
  "db_fault d = Some e \<Longrightarrow> saveAuthState now sid blob d = (Inl e, d)"
  by (simp add: saveAuthState_def update_session_rows_def)

section \<open>Verification: the account limit\<close>

text \<open>
  C8: when the count query runs and the organization's sessions whose status is
  \<^verbatim>\<open>connecting\<close>, \<^verbatim>\<open>connected\<close> or \<^verbatim>\<open>disconnected\<close> number at least \<^verbatim>\<open>max_accounts\<close>,
  the middleware answers 403 with the error \<^verbatim>\<open>Account limit reached\<close>, the count and the
  limit (and a message naming the limit).
\<close>

theorem checkSubscriptionLimits_account_limit:
  assumes "db_fault d = None"
    and "max_accounts org = Some m"
    and "n = length (filter (\<lambda>r. organization_id r = Some (org_id org)
                 \<and> row_status r \<in> {Some Connecting, Some Connected, Some Disconnected})
               (whatsapp_sessions d))"
    and "m \<le> int n"
  shows "checkSubscriptionLimits currentMonth org d =
           Response 403
             [(''error'', JString ''Account limit reached''),
              (''message'', JString (''Your plan allows '' @ show_int m
                                       @ '' accounts. Please upgrade.'')),
              (''current'', JNumber (int n)),
              (''limit'', JNumber m)]"
proof -
  have p: "(\<lambda>r::session_row. organization_id r = Some (org_id org)
                 \<and> row_status r \<noteq> None \<and> row_status r \<noteq> Some Error)
         = (\<lambda>r. organization_id r = Some (org_id org)
                 \<and> row_status r \<in> {Some Connecting, Some Connected, Some Disconnected})"
  proof
    fix r :: session_row
    show "(organization_id r = Some (org_id org)
             \<and> row_status r \<noteq> None \<and> row_status r \<noteq> Some Error)
        = (organization_id r = Some (org_id org)
             \<and> row_status r \<in> {Some Connecting, Some Connected, Some Disconnected})"
    proof (cases "row_status r")
      case None
      then show ?thesis by simp
    next
      case (Some st)
      then show ?thesis by (cases st) simp_all
    qed
  qed
  define xs where "xs = filter (\<lambda>r. organization_id r = Some (org_id org)
                 \<and> row_status r \<in> {Some Connecting, Some Connected, Some Disconnected})
               (whatsapp_sessions d)"
  have n: "n = length xs"
    using assms(3) by (simp add: xs_def)
  have c: "select_session_rows
             (\<lambda>r. organization_id r = Some (org_id org)
                   \<and> row_status r \<noteq> None \<and> row_status r \<noteq> Some Error) d
           = Inr xs"
    unfolding select_session_rows_def p xs_def using assms(1) by simp
  show ?thesis
    unfolding checkSubscriptionLimits_def c
    using assms(2,4)
    by (simp add: n to_number_def to_json_def template_number_def Let_def)
qed

text \<open>
  C8 at \<^verbatim>\<open>max_accounts = 1\<close> with one connected session: 403 with \<^verbatim>\<open>current: 1\<close> and
  \<^verbatim>\<open>limit: 1\<close>.
\<close>

theorem checkSubscriptionLimits_account_limit_witness:
  "checkSubscriptionLimits ''2025-01-01'' example_org example_db =
     Response 403
       [(''error'', JString ''Account limit reached''),
        (''message'', JString ''Your plan allows 1 accounts. Please upgrade.''),
        (''current'', JNumber 1),
        (''limit'', JNumber 1)]"
proof -
  have f: "db_fault example_db = None" by (simp add: example_db_def)
  have m: "max_accounts example_org = Some 1" by (simp add: example_org_def)
  have n: "(1::nat) = length (filter (\<lambda>r. organization_id r = Some (org_id example_org)
                 \<and> row_status r \<in> {Some Connecting, Some Connected, Some Disconnected})
               (whatsapp_sessions example_db))"
    by (simp add: example_db_def example_row_def example_org_def)
  have le: "(1::int) \<le> int 1" by simp
  from checkSubscriptionLimits_account_limit [OF f m n le, of "''2025-01-01''"]
  show ?thesis by (simp add: show_int_def show_nat.simps)
qed
section \<open>Verification: the reconnection controller\<close>

lemma updateReconnectAttempts_ok:
  assumes "db_fault d = None"
  shows "session_row_of (snd (updateReconnectAttempts sid n d)) sid
           = map_option (\<lambda>r. r\<lparr>reconnect_attempts := Some n\<rparr>) (session_row_of d sid)"
    and "db_fault (snd (updateReconnectAttempts sid n d)) = None"
  using assms
  by (auto simp: updateReconnectAttempts_def update_session_rows_def session_row_of_def
        find_map_update)

lemma handleDisconnection_at_cap:
  assumes "getAttempts w sid \<ge> 5"
  shows "handleDisconnection sid w =
     w\<lparr>pool := snd (updateSessionStatus (clock w) sid Error None
                      (Some ''Max reconnection attempts exceeded (5)'') (pool w)),
       reconnectionAttempts := (reconnectionAttempts w)(sid := None)\<rparr>"
  using assms by (simp add: handleDisconnection_def maxAttempts_def show_nat.simps)

lemma backoff_delay:
  assumes "n < 5"
  shows "min (baseDelay * 2 ^ n) maxDelay = 5000 * 2 ^ n"
    and "5000 * 2 ^ n \<in> {5000, 10000, 20000, 40000, 80000 :: nat}"
proof -
  from assms consider "n = 0" | "n = 1" | "n = 2" | "n = 3" | "n = 4" by linarith
  then show "min (baseDelay * 2 ^ n) maxDelay = 5000 * 2 ^ n"
    by cases (simp_all add: baseDelay_def maxDelay_def)
  from assms consider "n = 0" | "n = 1" | "n = 2" | "n = 3" | "n = 4" by linarith
  then show "5000 * 2 ^ n \<in> {5000, 10000, 20000, 40000, 80000 :: nat}"
    by cases simp_all
qed

lemma handleDisconnection_below_cap:
  assumes "getAttempts w sid = n" and "n < 5"
  shows "handleDisconnection sid w =
     w\<lparr>pool := snd (updateSessionStatus (clock w) sid Connecting None None
                      (snd (updateReconnectAttempts sid (n + 1) (pool w)))),
       reconnectionAttempts := (reconnectionAttempts w)(sid \<mapsto> n + 1),
       timers := timers w @
         [\<lparr>set_at = clock w, delay_ms = 5000 * 2 ^ n, action = ReconnectSession sid\<rparr>]\<rparr>"
  using assms backoff_delay(1) [OF assms(2)]
  by (simp add: handleDisconnection_def maxAttempts_def Let_def)

lemma fire_next_failed_reconnect:
  assumes "timers w = [t]" and "action t = ReconnectSession sid" and "sessions w sid = None"
  shows "fire_next (Some e) w =
           handleDisconnection sid (w\<lparr>timers := [], clock := max (clock w) (set_at t + delay_ms t)\<rparr>)"
  using assms by (simp add: fire_next_def run_timer_def createSession_def)

lemma handleDisconnection_frame:
  "sessions (handleDisconnection sid w) = sessions w"
  "clock (handleDisconnection sid w) = clock w"
  by (simp_all add: handleDisconnection_def Let_def)

lemma handleDisconnection_step:
  assumes "getAttempts w sid = n" and "n < 5" and "timers w = []"
  shows "timers (handleDisconnection sid w) =
           [\<lparr>set_at = clock w, delay_ms = 5000 * 2 ^ n, action = ReconnectSession sid\<rparr>]"
    and "getAttempts (handleDisconnection sid w) sid = n + 1"
  using assms by (simp_all add: handleDisconnection_below_cap [OF assms(1,2)] getAttempts_def)

lemma getAttempts_frame:
  "getAttempts (w\<lparr>timers := ts, clock := c\<rparr>) sid = getAttempts w sid"
  by (simp add: getAttempts_def)

lemma failed_reconnect_step:
  assumes "getAttempts w sid = n" and "n < 5" and "sessions w sid = None"
    and "timers w = [\<lparr>set_at = s, delay_ms = d, action = ReconnectSession sid\<rparr>]"
  shows "pending_delays (fire_next (Some e) w) = [5000 * 2 ^ n]"
    and "getAttempts (fire_next (Some e) w) sid = n + 1"
    and "sessions (fire_next (Some e) w) sid = None"
    and "\<exists>s'. timers (fire_next (Some e) w) =
            [\<lparr>set_at = s', delay_ms = 5000 * 2 ^ n, action = ReconnectSession sid\<rparr>]"
proof -
  let ?w = "w\<lparr>timers := [], clock := max (clock w) (s + d)\<rparr>"
  have f: "fire_next (Some e) w = handleDisconnection sid ?w"
    using fire_next_failed_reconnect [OF assms(4) _ assms(3)] by simp
  have a: "getAttempts ?w sid = n" using assms(1) by (simp add: getAttempts_def)
  have t: "timers ?w = []" by simp
  show "pending_delays (fire_next (Some e) w) = [5000 * 2 ^ n]"
    unfolding f pending_delays_def handleDisconnection_step(1) [OF a assms(2) t] by simp
  show "getAttempts (fire_next (Some e) w) sid = n + 1"
    unfolding f by (rule handleDisconnection_step(2) [OF a assms(2) t])
  show "sessions (fire_next (Some e) w) sid = None"
    unfolding f handleDisconnection_frame using assms(3) by simp
  show "\<exists>s'. timers (fire_next (Some e) w) =
            [\<lparr>set_at = s', delay_ms = 5000 * 2 ^ n, action = ReconnectSession sid\<rparr>]"
    unfolding f handleDisconnection_step(1) [OF a assms(2) t] by blast
qed

lemma failed_reconnects_invariant:
  assumes "getAttempts w sid = 0" and "timers w = []" and "sessions w sid = None"
    and "k < 5"
  shows "pending_delays ((fire_next (Some e) ^^ k) (handleDisconnection sid w)) = [5000 * 2 ^ k]
       \<and> getAttempts ((fire_next (Some e) ^^ k) (handleDisconnection sid w)) sid = k + 1
       \<and> sessions ((fire_next (Some e) ^^ k) (handleDisconnection sid w)) sid = None
       \<and> (\<exists>s'. timers ((fire_next (Some e) ^^ k) (handleDisconnection sid w)) =
            [\<lparr>set_at = s', delay_ms = 5000 * 2 ^ k, action = ReconnectSession sid\<rparr>])"
  using assms(4)
proof (induction k)
  case 0
  have lt: "(0::nat) < 5" by simp
  show ?case
    using handleDisconnection_step [OF assms(1) lt assms(2)] assms(3)
    by (simp add: pending_delays_def handleDisconnection_frame)
next
  case (Suc k)
  let ?w = "(fire_next (Some e) ^^ k) (handleDisconnection sid w)"
  from Suc have ih: "getAttempts ?w sid = k + 1" "sessions ?w sid = None"
    and "\<exists>s'. timers ?w = [\<lparr>set_at = s', delay_ms = 5000 * 2 ^ k, action = ReconnectSession sid\<rparr>]"
    by simp_all
  then obtain s' where t: "timers ?w =
      [\<lparr>set_at = s', delay_ms = 5000 * 2 ^ k, action = ReconnectSession sid\<rparr>]" by blast
  from Suc.prems have lt: "k + 1 < 5" by simp
  from failed_reconnect_step [OF ih(1) lt ih(2) t, of e]
  show ?case by simp
qed

text \<open>
  When every reconnection fails, the delays set one after the other are 5, 10, 20, 40 and
  80 seconds; the sixth call finds the counter at 5, sets no timer and deletes the counter.
\<close>

lemma failed_reconnects_delays:
  assumes "getAttempts w sid = 0" and "timers w = []" and "sessions w sid = None"
  shows "map (\<lambda>k. pending_delays ((fire_next (Some e) ^^ k) (handleDisconnection sid w)))
           [0, 1, 2, 3, 4, 5]
         = [[5000], [10000], [20000], [40000], [80000], []]"
    and "reconnectionAttempts ((fire_next (Some e) ^^ 5) (handleDisconnection sid w)) sid = None"
proof -
  let ?w = "\<lambda>k. (fire_next (Some e) ^^ k) (handleDisconnection sid w)"
  have lt: "(4::nat) < 5" by simp
  from failed_reconnects_invariant [OF assms lt, of e]
  obtain s' where a: "getAttempts (?w 4) sid = 5" and s: "sessions (?w 4) sid = None"
    and t: "timers (?w 4) = [\<lparr>set_at = s', delay_ms = 5000 * 2 ^ 4, action = ReconnectSession sid\<rparr>]"
    by auto
  let ?v = "(?w 4)\<lparr>timers := [], clock := max (clock (?w 4)) (s' + 5000 * 2 ^ 4)\<rparr>"
  have f: "fire_next (Some e) (?w 4) = handleDisconnection sid ?v"
    using fire_next_failed_reconnect [OF t _ s] by simp
  have five: "?w 5 = fire_next (Some e) (?w 4)"
    by (simp add: eval_nat_numeral)
  have cap: "5 \<le> getAttempts ?v sid" using a by (simp add: getAttempts_def)
  have last: "pending_delays (?w 5) = []" "reconnectionAttempts (?w 5) sid = None"
    unfolding five f handleDisconnection_at_cap [OF cap] by (simp_all add: pending_delays_def)
  have d: "pending_delays (?w k) = [5000 * 2 ^ k]" if "k < 5" for k
    using failed_reconnects_invariant [OF assms that, of e] by simp
  show "map (\<lambda>k. pending_delays (?w k)) [0, 1, 2, 3, 4, 5]
         = [[5000], [10000], [20000], [40000], [80000], []]"
    using d [of 0] d [of 1] d [of 2] d [of 3] d [of 4] last(1) by simp
  show "reconnectionAttempts (?w 5) sid = None" by (rule last(2))
qed


text \<open>
  C1 (as stated): below the cap a reconnect is set after \<open>min (5 s * 2^n) 300 s\<close>, at the
  cap the status becomes \<^verbatim>\<open>error\<close> with reason \<^verbatim>\<open>Max reconnection attempts exceeded\<close>, and
  the delays for \<open>n = 0..5\<close> are 5, 10, 20, 40, 80, 160 seconds. It fails at \<open>n = 5\<close>:
  the cap is 5, so that call sets no timer (there is no delay of 160 seconds), and the
  reason it stores ends in \<^verbatim>\<open>(5)\<close>.
\<close>

theorem handleDisconnection_no_sixth_delay:
  "getAttempts (world_with_attempts 5) ''s1'' = 5
   \<and> pending_delays (handleDisconnection ''s1'' (world_with_attempts 5)) = []
   \<and> map_option error_message
        (session_row_of (pool (handleDisconnection ''s1'' (world_with_attempts 5))) ''s1'')
       = Some (Some ''Max reconnection attempts exceeded (5)'')
   \<and> ''Max reconnection attempts exceeded (5)'' \<noteq> ''Max reconnection attempts exceeded''"
  by (simp add: handleDisconnection_def getAttempts_def world_with_attempts_def
        example_world_def example_db_def example_row_def maxAttempts_def pending_delays_def
        updateSessionStatus_def update_session_rows_def session_row_of_def show_nat.simps)

text \<open>
  C1 (amended): with \<open>n\<close> the session's counter (0 when absent), a call at \<open>n \<ge> 5\<close>
  deletes the counter, sets no timer and, when the store answers and has the session's
  row, leaves it with status \<^verbatim>\<open>error\<close> and the message
  \<^verbatim>\<open>Max reconnection attempts exceeded (5)\<close>; a call at \<open>n < 5\<close> sets the counter to
  \<open>n + 1\<close>, appends one reconnection timer with delay \<open>min (5000 * 2^n) 300000\<close> ms, which
  is the \<open>n\<close>-th of 5, 10, 20, 40, 80 seconds, and leaves the row with status
  \<^verbatim>\<open>connecting\<close> and \<^verbatim>\<open>reconnect_attempts = n + 1\<close>.
\<close>

theorem handleDisconnection_backoff:
  assumes "getAttempts w sid = n"
  shows "(5 \<le> n \<longrightarrow>
            reconnectionAttempts (handleDisconnection sid w) sid = None
          \<and> timers (handleDisconnection sid w) = timers w
          \<and> (\<forall>r. db_fault (pool w) = None \<and> session_row_of (pool w) sid = Some r \<longrightarrow>
                (\<exists>r'. session_row_of (pool (handleDisconnection sid w)) sid = Some r'
                    \<and> row_status r' = Some Error
                    \<and> error_message r' = Some ''Max reconnection attempts exceeded (5)'')))
       \<and> (n < 5 \<longrightarrow>
            reconnectionAttempts (handleDisconnection sid w) sid = Some (n + 1)
          \<and> timers (handleDisconnection sid w) = timers w @
               [\<lparr>set_at = clock w, delay_ms = min (5000 * 2 ^ n) 300000,
                 action = ReconnectSession sid\<rparr>]
          \<and> min (5000 * 2 ^ n) 300000 = [5000, 10000, 20000, 40000, 80000 :: nat] ! n
          \<and> (\<forall>r. db_fault (pool w) = None \<and> session_row_of (pool w) sid = Some r \<longrightarrow>
                (\<exists>r'. session_row_of (pool (handleDisconnection sid w)) sid = Some r'
                    \<and> row_status r' = Some Connecting
                    \<and> reconnect_attempts r' = Some (n + 1))))"
proof (cases "5 \<le> n")
  case True
  with assms have cap: "getAttempts w sid \<ge> 5" by simp
  show ?thesis
    using True updateSessionStatus_ok(2) [of "pool w" "clock w" sid Error None
        "Some ''Max reconnection attempts exceeded (5)''"]
    by (auto simp: handleDisconnection_at_cap [OF cap])
next
  case False
  then have lt: "n < 5" by simp
  from lt consider "n = 0" | "n = 1" | "n = 2" | "n = 3" | "n = 4" by linarith
  then have nth: "min (5000 * 2 ^ n) 300000 = [5000, 10000, 20000, 40000, 80000 :: nat] ! n"
    by cases simp_all
  have m: "min (5000 * 2 ^ n) 300000 = (5000 * 2 ^ n :: nat)"
    using backoff_delay(1) [OF lt] by (simp add: baseDelay_def maxDelay_def)
  have db: "\<exists>r'. session_row_of (pool (handleDisconnection sid w)) sid = Some r'
                    \<and> row_status r' = Some Connecting
                    \<and> reconnect_attempts r' = Some (n + 1)"
    if f: "db_fault (pool w) = None" and r: "session_row_of (pool w) sid = Some r" for r
  proof -
    let ?d1 = "snd (updateReconnectAttempts sid (n + 1) (pool w))"
    have f1: "db_fault ?d1 = None" by (rule updateReconnectAttempts_ok(2) [OF f])
    have r1: "session_row_of ?d1 sid = Some (r\<lparr>reconnect_attempts := Some (n + 1)\<rparr>)"
      using updateReconnectAttempts_ok(1) [OF f, of sid "n + 1"] r by simp
    show ?thesis
      using updateSessionStatus_ok(2) [OF f1, of "clock w" sid Connecting None None] r1
      by (simp add: handleDisconnection_below_cap [OF assms lt])
  qed
  have t: "timers (handleDisconnection sid w) = timers w @
               [\<lparr>set_at = clock w, delay_ms = min (5000 * 2 ^ n) 300000,
                 action = ReconnectSession sid\<rparr>]"
    unfolding m by (simp add: handleDisconnection_below_cap [OF assms lt])
  have c: "reconnectionAttempts (handleDisconnection sid w) sid = Some (n + 1)"
    by (simp add: handleDisconnection_below_cap [OF assms lt])
  from False lt c t nth db show ?thesis by blast
qed

text \<open>C1 (amended) at the counters 4 and 5: a delay of 80 seconds, then none.\<close>

theorem handleDisconnection_backoff_witness:
  "pending_delays (handleDisconnection ''s1'' (world_with_attempts 4)) = [80000]
   \<and> reconnectionAttempts (handleDisconnection ''s1'' (world_with_attempts 4)) ''s1'' = Some 5
   \<and> reconnectionAttempts (handleDisconnection ''s1'' (world_with_attempts 5)) ''s1'' = None"
proof -
  have a4: "getAttempts (world_with_attempts 4) ''s1'' = 4"
    and a5: "getAttempts (world_with_attempts 5) ''s1'' = 5"
    and t: "timers (world_with_attempts 4) = []"
    by (simp_all add: getAttempts_def world_with_attempts_def example_world_def)
  from handleDisconnection_backoff [OF a4] handleDisconnection_backoff [OF a5] t
  show ?thesis by (simp add: pending_delays_def)
qed

section \<open>Verification: the connection-close handler\<close>

lemma saveQRCode_ok:
  assumes "db_fault d = None"
  shows "session_row_of (snd (saveQRCode now sid q d)) sid
           = map_option (\<lambda>r. r\<lparr>qr_code := Some q, updated_at := Some now\<rparr>) (session_row_of d sid)"
    and "db_fault (snd (saveQRCode now sid q d)) = None"
  using assms
  by (auto simp: saveQRCode_def update_session_rows_def session_row_of_def find_map_update)

lemma saveQRCode_fault:
  "db_fault (snd (saveQRCode now sid q d)) = db_fault d"
  by (auto simp: saveQRCode_def update_session_rows_def split: option.splits)

lemma on_qr_frame:
  "timers (on_qr sid cb u w) = timers w"
  "sessions (on_qr sid cb u w) = sessions w"
  "reconnectionAttempts (on_qr sid cb u w) = reconnectionAttempts w"
  "clock (on_qr sid cb u w) = clock w"
  by (simp_all add: on_qr_def Let_def split: option.splits)

lemma on_qr_pool:
  assumes "db_fault (pool w) = None" and "session_row_of (pool w) sid = Some r"
  shows "db_fault (pool (on_qr sid cb u w)) = None"
    and "\<exists>r1. session_row_of (pool (on_qr sid cb u w)) sid = Some r1"
  using assms saveQRCode_ok [OF assms(1), of "clock w" sid]
  by (auto simp: on_qr_def Let_def split: option.splits)

lemma connection_update_close:
  assumes "update_connection u = Some Close"
  shows "connection_update loggedOut user_id sid cb u w
           = (Inr (), on_close loggedOut sid cb u (on_qr sid cb u w))"
  using assms by (simp add: connection_update_def Let_def)

text \<open>The two copies of the close branch differ only in the write to the store.\<close>

lemma on_close_plain_eq:
  "on_close_plain loggedOut sid cb u w = (on_close loggedOut sid cb u w)\<lparr>pool := pool w\<rparr>"
  by (simp add: on_close_plain_def on_close_def Let_def)

text \<open>
  C4 (as stated): after a close for a reason other than logout the session is handed to
  the reconnection controller. It fails: the handler itself sets a timer of 3 seconds
  that calls \<^verbatim>\<open>createSession\<close> again; the controller's counter stays untouched, where a
  call of \<^verbatim>\<open>handleDisconnection\<close> would have set it to 1 and set a reconnection timer of
  5 seconds. Here \<^verbatim>\<open>DisconnectReason.loggedOut\<close> is 401 and the close carries 428.
\<close>

theorem connection_close_no_handoff:
  "map action (timers (snd (connection_update 401 ''5551234567:1@s.whatsapp.net'' ''s1''
        all_callbacks connection_lost live_world)))
     = [RecreateSession ''s1'' all_callbacks]
   \<and> pending_delays (snd (connection_update 401 ''5551234567:1@s.whatsapp.net'' ''s1''
        all_callbacks connection_lost live_world)) = [3000]
   \<and> reconnectionAttempts (snd (connection_update 401 ''5551234567:1@s.whatsapp.net'' ''s1''
        all_callbacks connection_lost live_world)) ''s1'' = None
   \<and> map action (timers (handleDisconnection ''s1'' live_world)) = [ReconnectSession ''s1'']
   \<and> pending_delays (handleDisconnection ''s1'' live_world) = [5000]
   \<and> reconnectionAttempts (handleDisconnection ''s1'' live_world) ''s1'' = Some 1"
  by (simp add: connection_update_def on_qr_def on_close_def connection_lost_def live_world_def
        example_world_def all_callbacks_def pending_delays_def handleDisconnection_def
        getAttempts_def maxAttempts_def baseDelay_def maxDelay_def Let_def)

text \<open>
  C4 (amended): on a close event the handler returns normally and leaves the reconnection
  counters alone. If the status code is the library's logged-out value, the registry
  entry is deleted, no timer is set, \<^verbatim>\<open>onDisconnect\<close> is called when it is given, and (when
  the store answers and has the row) the row gets status \<^verbatim>\<open>disconnected\<close> and the message
  \<^verbatim>\<open>Logged out\<close>. For any other code the registry is unchanged, one timer of 3000 ms that
  calls \<^verbatim>\<open>createSession\<close> with the same callbacks is appended, no callback of the close
  branch is called, and the row gets status \<^verbatim>\<open>disconnected\<close> and the close error's message.
\<close>

theorem connection_close_handling:
  assumes "update_connection u = Some Close"
    and "w' = snd (connection_update loggedOut user_id sid cb u w)"
  shows "fst (connection_update loggedOut user_id sid cb u w) = Inr ()
       \<and> reconnectionAttempts w' = reconnectionAttempts w
       \<and> (disconnect_statusCode u = Some loggedOut \<longrightarrow>
            sessions w' = (sessions w)(sid := None)
          \<and> timers w' = timers w
          \<and> callback_log w' = callback_log (on_qr sid cb u w)
                                @ (if has_onDisconnect cb then [OnDisconnect] else [])
          \<and> (\<forall>r. db_fault (pool w) = None \<and> session_row_of (pool w) sid = Some r \<longrightarrow>
                (\<exists>r'. session_row_of (pool w') sid = Some r'
                    \<and> row_status r' = Some Disconnected
                    \<and> error_message r' = Some ''Logged out'')))
       \<and> (disconnect_statusCode u \<noteq> Some loggedOut \<longrightarrow>
            sessions w' = sessions w
          \<and> timers w' = timers w @
               [\<lparr>set_at = clock w, delay_ms = 3000, action = RecreateSession sid cb\<rparr>]
          \<and> callback_log w' = callback_log (on_qr sid cb u w)
          \<and> (\<forall>r. db_fault (pool w) = None \<and> session_row_of (pool w) sid = Some r \<longrightarrow>
                (\<exists>r'. session_row_of (pool w') sid = Some r'
                    \<and> row_status r' = Some Disconnected
                    \<and> error_message r' = disconnect_message u)))"
proof -
  let ?w1 = "on_qr sid cb u w"
  have w': "w' = on_close loggedOut sid cb u ?w1"
    using assms(2) by (simp add: connection_update_close [OF assms(1)])
  have db: "\<exists>r'. session_row_of (snd (updateSessionStatus (clock ?w1) sid Disconnected None m
                       (pool ?w1))) sid = Some r'
              \<and> row_status r' = Some Disconnected \<and> error_message r' = m"
    if "db_fault (pool w) = None" and "session_row_of (pool w) sid = Some r" for r m
  proof -
    from on_qr_pool [OF that] obtain r1
      where f: "db_fault (pool ?w1) = None" and r1: "session_row_of (pool ?w1) sid = Some r1"
      by blast
    show ?thesis
      using updateSessionStatus_ok(2) [OF f, of "clock ?w1" sid Disconnected None m] r1
      by simp
  qed
  have out: "disconnect_statusCode u = Some loggedOut \<Longrightarrow>
            sessions w' = (sessions w)(sid := None)
          \<and> timers w' = timers w
          \<and> reconnectionAttempts w' = reconnectionAttempts w
          \<and> callback_log w' = callback_log ?w1
                                @ (if has_onDisconnect cb then [OnDisconnect] else [])
          \<and> pool w' = snd (updateSessionStatus (clock ?w1) sid Disconnected None
                             (Some ''Logged out'') (pool ?w1))"
    by (simp add: w' on_close_def Let_def on_qr_frame)
  have other: "disconnect_statusCode u \<noteq> Some loggedOut \<Longrightarrow>
            sessions w' = sessions w
          \<and> timers w' = timers w @
               [\<lparr>set_at = clock w, delay_ms = 3000, action = RecreateSession sid cb\<rparr>]
          \<and> reconnectionAttempts w' = reconnectionAttempts w
          \<and> callback_log w' = callback_log ?w1
          \<and> pool w' = snd (updateSessionStatus (clock ?w1) sid Disconnected None
                             (disconnect_message u) (pool ?w1))"
    by (simp add: w' on_close_def Let_def on_qr_frame)
  have r: "reconnectionAttempts w' = reconnectionAttempts w"
    using out other by (cases "disconnect_statusCode u = Some loggedOut") simp_all
  have ok: "fst (connection_update loggedOut user_id sid cb u w) = Inr ()"
    by (simp add: connection_update_close [OF assms(1)])
  show ?thesis
  proof (cases "disconnect_statusCode u = Some loggedOut")
    case True
    from out [OF True] db [of _ "Some ''Logged out''"] ok r True show ?thesis by auto
  next
    case False
    from other [OF False] db [of _ "disconnect_message u"] ok r False show ?thesis by auto
  qed
qed

text \<open>C4 (amended) at a logout (401) and at a lost connection (428).\<close>

theorem connection_close_handling_witness:
  "sessions (snd (connection_update 401 ''5551234567:1@s.whatsapp.net'' ''s1''
        all_callbacks logged_out live_world)) ''s1'' = None
   \<and> timers (snd (connection_update 401 ''5551234567:1@s.whatsapp.net'' ''s1''
        all_callbacks logged_out live_world)) = []
   \<and> callback_log (snd (connection_update 401 ''5551234567:1@s.whatsapp.net'' ''s1''
        all_callbacks logged_out live_world)) = [OnDisconnect]
   \<and> sessions (snd (connection_update 401 ''5551234567:1@s.whatsapp.net'' ''s1''
        all_callbacks connection_lost live_world)) ''s1'' \<noteq> None
   \<and> timers (snd (connection_update 401 ''5551234567:1@s.whatsapp.net'' ''s1''
        all_callbacks connection_lost live_world))
       = [\<lparr>set_at = 1000, delay_ms = 3000, action = RecreateSession ''s1'' all_callbacks\<rparr>]"
proof -
  have c: "update_connection logged_out = Some Close"
       "update_connection connection_lost = Some Close"
    by (simp_all add: logged_out_def connection_lost_def)
  have s: "disconnect_statusCode logged_out = Some 401"
       "disconnect_statusCode connection_lost \<noteq> Some 401"
    by (simp_all add: logged_out_def connection_lost_def)
  have q: "on_qr ''s1'' all_callbacks logged_out live_world = live_world"
    by (simp add: on_qr_def logged_out_def)
  have l: "timers live_world = []" "callback_log live_world = []" "clock live_world = 1000"
       "sessions live_world ''s1'' \<noteq> None" "has_onDisconnect all_callbacks"
    by (simp_all add: live_world_def example_world_def all_callbacks_def)
  from connection_close_handling [OF c(1) refl, of 401 "''5551234567:1@s.whatsapp.net''" "''s1''"
         all_callbacks live_world]
       connection_close_handling [OF c(2) refl, of 401 "''5551234567:1@s.whatsapp.net''" "''s1''"
         all_callbacks live_world]
       s q l
  show ?thesis by simp
qed

section \<open>Verification: the outbound queue\<close>

lemma shouldThrottle_frame:
  "attempt_log (snd (shouldThrottle sid st)) = attempt_log st"
  "queues (snd (shouldThrottle sid st)) = queues st"
  "queue_log (snd (shouldThrottle sid st)) = queue_log st"
  "mq_clock (snd (shouldThrottle sid st)) = mq_clock st"
  "transport_calls (snd (shouldThrottle sid st)) = transport_calls st"
  by (simp_all add: shouldThrottle_def split: option.splits)

lemma session_send_frame:
  "attempt_log (snd (session_send tr st)) = attempt_log st"
  "queues (snd (session_send tr st)) = queues st"
  "queue_log (snd (session_send tr st)) = queue_log st"
  "stats (snd (session_send tr st)) = stats st"
  "mq_clock (snd (session_send tr st)) = mq_clock st + snd (tr (transport_calls st))"
  by (simp_all add: session_send_def split: prod.splits)

lemma sendMessage_frame:
  "attempt_log (snd (sendMessage tr sid m st)) = attempt_log st @ [(mq_clock st, item_id m)]"
  "queues (snd (sendMessage tr sid m st)) = queues st"
  "queue_log (snd (sendMessage tr sid m st)) = queue_log st"
  "stats (snd (sendMessage tr sid m st)) = stats st"
  by (simp_all add: sendMessage_def Let_def session_send_frame split: option.splits)

lemma queue_of_frame:
  "queues st' = queues st \<Longrightarrow> queue_of st' sid = queue_of st sid"
  by (simp add: queue_of_def)

lemma queue_of_upd: "queue_of (st\<lparr>queues := (queues st')(sid \<mapsto> q)\<rparr>) sid = q"
  by (simp add: queue_of_def)

lemma queue_of_delay: "queue_of (delay ms st) sid = queue_of st sid"
  by (simp add: queue_of_def delay_def)

lemma queue_of_log_event: "queue_of (log_event ev st) sid = queue_of st sid"
  by (simp add: queue_of_def log_event_def)

lemma queue_of_updateStats: "queue_of (updateStats sid' st) sid = queue_of st sid"
  by (simp add: queue_of_def updateStats_def Let_def)

text \<open>What one pass does when the head is tried and the send fails.\<close>

lemma worker_iteration_failure:
  assumes q: "queue_of st sid = m # rest"
    and t: "shouldThrottle sid st = (False, st1)"
    and s: "sendMessage tr sid m st1 = (Inl e, st2)"
  shows "worker_iteration tr sid st =
     (if 3 \<le> item_attempts m + 1
      then log_event (LogMaxAttempts (item_id m))
             ((log_event (LogSendFailed (item_id m) e) st2)
                \<lparr>queues := (queues st2)(sid \<mapsto> rest)\<rparr>)
      else delay 5000
             ((log_event (LogSendFailed (item_id m) e) st2)
                \<lparr>queues := (queues st2)(sid \<mapsto> rest @ [m\<lparr>item_attempts := item_attempts m + 1\<rparr>])\<rparr>))"
  by (simp add: worker_iteration_def q t s Let_def log_event_def)

lemma worker_iteration_success:
  assumes q: "queue_of st sid = m # rest"
    and t: "shouldThrottle sid st = (False, st1)"
    and s: "sendMessage tr sid m st1 = (Inr u, st2)"
  shows "worker_iteration tr sid st =
     delay delayBetweenMessages
       (log_event (LogSent (item_id m))
          (updateStats sid (st2\<lparr>queues := (queues st2)(sid \<mapsto> rest)\<rparr>)))"
  by (simp add: worker_iteration_def q t s)

lemma worker_iteration_throttled:
  assumes q: "queue_of st sid = m # rest"
    and t: "shouldThrottle sid st = (True, st1)"
  shows "worker_iteration tr sid st = delay 60000 (log_event (LogRateLimit sid) st1)"
  by (simp add: worker_iteration_def q t)

text \<open>A pass tries at most the head, and brings no new id into the queue.\<close>

lemma worker_iteration_attempts:
  "\<exists>xs. attempt_log (worker_iteration tr sid st) = attempt_log st @ xs
        \<and> snd ` set xs \<subseteq> item_id ` set (queue_of st sid)"
  and worker_iteration_ids:
  "item_id ` set (queue_of (worker_iteration tr sid st) sid) \<subseteq> item_id ` set (queue_of st sid)"
proof -
  show "\<exists>xs. attempt_log (worker_iteration tr sid st) = attempt_log st @ xs
        \<and> snd ` set xs \<subseteq> item_id ` set (queue_of st sid)"
  proof (cases "queue_of st sid")
    case Nil
    then show ?thesis by (simp add: worker_iteration_def)
  next
    case (Cons m rest)
    obtain b st1 where t: "shouldThrottle sid st = (b, st1)" by (cases "shouldThrottle sid st")
    then have st1: "st1 = snd (shouldThrottle sid st)" by simp
    obtain r st2 where s: "sendMessage tr sid m st1 = (r, st2)"
      by (cases "sendMessage tr sid m st1")
    then have st2: "st2 = snd (sendMessage tr sid m st1)" by simp
    have a2: "attempt_log st2 = attempt_log st @ [(mq_clock st, item_id m)]"
      by (simp add: st2 st1 sendMessage_frame shouldThrottle_frame)
    show ?thesis
    proof (cases b)
      case True
      with t have "worker_iteration tr sid st = delay 60000 (log_event (LogRateLimit sid) st1)"
        using worker_iteration_throttled [OF Cons] by simp
      then show ?thesis
        by (simp add: delay_def log_event_def st1 shouldThrottle_frame)
    next
      case False
      show ?thesis
      proof (cases r)
        case (Inl e)
        from worker_iteration_failure [OF Cons, of st1 tr e st2] t s False Inl
        show ?thesis
          by (simp add: delay_def log_event_def a2 Cons)
      next
        case (Inr u)
        from worker_iteration_success [OF Cons, of st1 tr u st2] t s False Inr
        show ?thesis
          by (simp add: delay_def log_event_def updateStats_def Let_def a2 Cons)
      qed
    qed
  qed
  show "item_id ` set (queue_of (worker_iteration tr sid st) sid) \<subseteq> item_id ` set (queue_of st sid)"
  proof (cases "queue_of st sid")
    case Nil
    then show ?thesis by (simp add: worker_iteration_def)
  next
    case (Cons m rest)
    obtain b st1 where t: "shouldThrottle sid st = (b, st1)" by (cases "shouldThrottle sid st")
    then have st1: "st1 = snd (shouldThrottle sid st)" by simp
    obtain r st2 where s: "sendMessage tr sid m st1 = (r, st2)"
      by (cases "sendMessage tr sid m st1")
    show ?thesis
    proof (cases b)
      case True
      with t have "worker_iteration tr sid st = delay 60000 (log_event (LogRateLimit sid) st1)"
        using worker_iteration_throttled [OF Cons] by simp
      then have "queue_of (worker_iteration tr sid st) sid = queue_of st sid"
        using queue_of_frame [OF shouldThrottle_frame(2), of sid st sid]
        by (simp add: queue_of_delay queue_of_log_event st1)
      then show ?thesis by simp
    next
      case False
      show ?thesis
      proof (cases r)
        case (Inl e)
        from worker_iteration_failure [OF Cons, of st1 tr e st2] t s False Inl
        have "queue_of (worker_iteration tr sid st) sid =
                (if 3 \<le> item_attempts m + 1 then rest
                 else rest @ [m\<lparr>item_attempts := item_attempts m + 1\<rparr>])"
          by (simp add: queue_of_def delay_def log_event_def)
        then show ?thesis unfolding Cons by auto
      next
        case (Inr u)
        from worker_iteration_success [OF Cons, of st1 tr u st2] t s False Inr
        have "queue_of (worker_iteration tr sid st) sid = rest"
          by (simp add: queue_of_def delay_def log_event_def updateStats_def Let_def)
        then show ?thesis unfolding Cons by auto
      qed
    qed
  qed
qed

text \<open>Over any number of passes, only ids of the queue are tried.\<close>

lemma worker_run_attempts:
  "\<exists>xs. attempt_log ((worker_iteration tr sid ^^ n) st) = attempt_log st @ xs
        \<and> snd ` set xs \<subseteq> item_id ` set (queue_of st sid)"
proof (induction n arbitrary: st)
  case 0
  show ?case by simp
next
  case (Suc n)
  let ?st1 = "worker_iteration tr sid st"
  from worker_iteration_attempts [of tr sid st] obtain xs
    where xs: "attempt_log ?st1 = attempt_log st @ xs"
      "snd ` set xs \<subseteq> item_id ` set (queue_of st sid)" by blast
  from Suc.IH [of ?st1] obtain ys
    where ys: "attempt_log ((worker_iteration tr sid ^^ n) ?st1) = attempt_log ?st1 @ ys"
      "snd ` set ys \<subseteq> item_id ` set (queue_of ?st1 sid)" by blast
  have "snd ` set ys \<subseteq> item_id ` set (queue_of st sid)"
    using ys(2) worker_iteration_ids [of tr sid st] by (rule subset_trans)
  with xs(2) have "snd ` set (xs @ ys) \<subseteq> item_id ` set (queue_of st sid)"
    by (simp add: image_Un)
  moreover have "attempt_log ((worker_iteration tr sid ^^ Suc n) st) = attempt_log st @ (xs @ ys)"
    using xs(1) ys(1) by (simp add: funpow_swap1)
  ultimately show ?case by blast
qed


text \<open>
  C5: when the head of the queue is tried and the send fails, \<^verbatim>\<open>attempts\<close> goes up by
  one. If it has reached 3 the item leaves the queue, the failure is written to the log
  (the error line and the line \<^verbatim>\<open>Max attempts reached\<close>; nothing else records it), the
  worker does not wait, and provided no other queued item carries the same id, no later
  pass of the worker tries it again. Below 3 the item, with the new count, moves from the
  head to the tail behind the other items in their order, and the worker waits 5 seconds.
\<close>

theorem failed_send_retry_or_drop:
  assumes q: "queue_of st sid = m # rest"
    and t: "shouldThrottle sid st = (False, st1)"
    and s: "sendMessage tr sid m st1 = (Inl e, st2)"
    and st': "st' = worker_iteration tr sid st"
  shows "(3 \<le> item_attempts m + 1 \<longrightarrow>
            queue_of st' sid = rest
          \<and> queue_log st' = queue_log st
                @ [LogSendFailed (item_id m) e, LogMaxAttempts (item_id m)]
          \<and> mq_clock st' = mq_clock st2
          \<and> (item_id m \<notin> item_id ` set rest \<longrightarrow>
               (\<forall>tr' n. item_id m \<notin> snd ` set (drop (length (attempt_log st'))
                            (attempt_log ((worker_iteration tr' sid ^^ n) st'))))))
       \<and> (item_attempts m + 1 < 3 \<longrightarrow>
            queue_of st' sid = rest @ [m\<lparr>item_attempts := item_attempts m + 1\<rparr>]
          \<and> queue_log st' = queue_log st @ [LogSendFailed (item_id m) e]
          \<and> mq_clock st' = mq_clock st2 + 5000)"
proof -
  have st1: "st1 = snd (shouldThrottle sid st)" using t by simp
  have st2: "st2 = snd (sendMessage tr sid m st1)" using s by simp
  have l2: "queue_log st2 = queue_log st"
    by (simp add: st2 st1 sendMessage_frame shouldThrottle_frame)
  note w = worker_iteration_failure [OF q t s]
  show ?thesis
  proof (cases "3 \<le> item_attempts m + 1")
    case True
    have qr: "queue_of st' sid = rest"
      using True by (simp add: st' w queue_of_def log_event_def)
    have never: "item_id m \<notin> snd ` set (drop (length (attempt_log st'))
                            (attempt_log ((worker_iteration tr' sid ^^ n) st')))"
      if fresh: "item_id m \<notin> item_id ` set rest" for tr' n
    proof -
      from worker_run_attempts [where tr=tr' and sid=sid and n=n and st=st'] obtain xs
        where xs: "attempt_log ((worker_iteration tr' sid ^^ n) st') = attempt_log st' @ xs"
          "snd ` set xs \<subseteq> item_id ` set (queue_of st' sid)" by blast
      from xs(2) fresh have "item_id m \<notin> snd ` set xs" unfolding qr by blast
      then show ?thesis by (simp add: xs(1))
    qed
    have lg: "queue_log st' = queue_log st
                @ [LogSendFailed (item_id m) e, LogMaxAttempts (item_id m)]"
      using True by (simp add: st' w log_event_def l2)
    have ck: "mq_clock st' = mq_clock st2"
      using True by (simp add: st' w log_event_def)
    from True qr lg ck never show ?thesis by simp
  next
    case False
    have qr: "queue_of st' sid = rest @ [m\<lparr>item_attempts := item_attempts m + 1\<rparr>]"
      using False by (simp add: st' w queue_of_def log_event_def delay_def)
    have lg: "queue_log st' = queue_log st @ [LogSendFailed (item_id m) e]"
      using False by (simp add: st' w log_event_def l2 delay_def)
    have ck: "mq_clock st' = mq_clock st2 + 5000"
      using False by (simp add: st' w log_event_def delay_def)
    from False qr lg ck show ?thesis by simp
  qed
qed


text \<open>C5 at a third failure (the item is dropped) and at a first one (it moves to the tail).\<close>

theorem failed_send_retry_or_drop_witness:
  "queue_of (worker_iteration (\<lambda>k. (Some ''Session s1 not connected'', 0)) ''s1''
      (idle_queue\<lparr>queues := [''s1'' \<mapsto> [text_item ''a'' 2, text_item ''b'' 0]]\<rparr>)) ''s1''
     = [text_item ''b'' 0]
   \<and> queue_of (worker_iteration (\<lambda>k. (Some ''Session s1 not connected'', 0)) ''s1''
      (idle_queue\<lparr>queues := [''s1'' \<mapsto> [text_item ''a'' 0, text_item ''b'' 0]]\<rparr>)) ''s1''
     = [text_item ''b'' 0, text_item ''a'' 1]
   \<and> mq_clock (worker_iteration (\<lambda>k. (Some ''Session s1 not connected'', 0)) ''s1''
      (idle_queue\<lparr>queues := [''s1'' \<mapsto> [text_item ''a'' 0, text_item ''b'' 0]]\<rparr>)) = 5000"
proof -
  let ?tr = "\<lambda>k::nat. (Some ''Session s1 not connected'', 0::nat)"
  let ?st = "\<lambda>n. idle_queue\<lparr>queues := [''s1'' \<mapsto> [text_item ''a'' n, text_item ''b'' 0]]\<rparr>"
  have q: "queue_of (?st n) ''s1'' = text_item ''a'' n # [text_item ''b'' 0]" for n
    by (simp add: queue_of_def)
  have t: "shouldThrottle ''s1'' (?st n) = (False, ?st n)" for n
    by (simp add: shouldThrottle_def idle_queue_def)
  have s: "sendMessage ?tr ''s1'' (text_item ''a'' n) (?st n)
             = (Inl ''Session s1 not connected'', snd (sendMessage ?tr ''s1'' (text_item ''a'' n) (?st n)))"
    for n by (simp add: sendMessage_def session_send_def text_item_def Let_def)
  have c: "mq_clock (snd (sendMessage ?tr ''s1'' (text_item ''a'' n) (?st n))) = 0" for n
    by (simp add: sendMessage_def session_send_def text_item_def Let_def idle_queue_def)
  have a: "item_attempts (text_item ''a'' n) = n"
    "(text_item ''a'' n)\<lparr>item_attempts := n + 1\<rparr> = text_item ''a'' (n + 1)" for n
    by (simp_all add: text_item_def)
  from failed_send_retry_or_drop [OF q t s refl, of 2] failed_send_retry_or_drop [OF q t s refl, of 0]
       c a
  show ?thesis by simp
qed


text \<open>A pass that sends a text message over a transport that takes 1 ms.\<close>

lemma one_ms_pass:
  assumes q: "queue_of st sid = m # rest" and ty: "item_type m = Some ''text''"
    and t: "shouldThrottle sid st = (False, st1)"
  shows "mq_clock (worker_iteration one_ms sid st) = mq_clock st + 3001"
    and "queue_of (worker_iteration one_ms sid st) sid = rest"
    and "stats (worker_iteration one_ms sid st) sid =
           Some (case stats st1 sid of
                   Some s \<Rightarrow> s\<lparr>sent := sent s + 1\<rparr>
                 | None \<Rightarrow> \<lparr>sent = 1, lastReset = mq_clock st + 1\<rparr>)"
    and "queue_log (worker_iteration one_ms sid st) = queue_log st @ [LogSent (item_id m)]"
    and "map fst (attempt_log (worker_iteration one_ms sid st))
           = map fst (attempt_log st) @ [mq_clock st]"
proof -
  have st1: "st1 = snd (shouldThrottle sid st)" using t by simp
  have f: "attempt_log st1 = attempt_log st" "queues st1 = queues st"
    "queue_log st1 = queue_log st" "mq_clock st1 = mq_clock st"
    by (simp_all add: st1 shouldThrottle_frame)
  let ?st2 = "st1\<lparr>attempt_log := attempt_log st1 @ [(mq_clock st1, item_id m)],
                  transport_calls := transport_calls st1 + 1, mq_clock := mq_clock st1 + 1\<rparr>"
  have s: "sendMessage one_ms sid m st1 = (Inr (), ?st2)"
    by (simp add: sendMessage_def session_send_def one_ms_def ty Let_def)
  note w = worker_iteration_success [OF q t s]
  show "mq_clock (worker_iteration one_ms sid st) = mq_clock st + 3001"
    by (simp add: w delay_def log_event_def updateStats_def Let_def delayBetweenMessages_def f)
  show "queue_of (worker_iteration one_ms sid st) sid = rest"
    by (simp add: w delay_def log_event_def updateStats_def Let_def queue_of_def)
  show "stats (worker_iteration one_ms sid st) sid =
           Some (case stats st1 sid of
                   Some s \<Rightarrow> s\<lparr>sent := sent s + 1\<rparr>
                 | None \<Rightarrow> \<lparr>sent = 1, lastReset = mq_clock st + 1\<rparr>)"
    by (simp add: w delay_def log_event_def updateStats_def Let_def f split: option.splits)
  show "queue_log (worker_iteration one_ms sid st) = queue_log st @ [LogSent (item_id m)]"
    by (simp add: w delay_def log_event_def updateStats_def Let_def f)
  show "map fst (attempt_log (worker_iteration one_ms sid st))
           = map fst (attempt_log st) @ [mq_clock st]"
    by (simp add: w delay_def log_event_def updateStats_def Let_def f)
qed

lemma burst_queue: "queue_of (burst n) ''s1'' = map (\<lambda>i. text_item (show_nat i) 0) [0..<n]"
  by (simp add: burst_def queue_of_def)

text \<open>
  The first 20 passes over a burst, each send taking 1 ms: a send every 3001 ms, all
  counted in the window that the first send opened at 1 ms, and no throttling.
\<close>

lemma burst_run:
  assumes "k < 20" and "k < n"
  shows "mq_clock ((worker_iteration one_ms ''s1'' ^^ Suc k) (burst n)) = 3001 * Suc k
       \<and> stats ((worker_iteration one_ms ''s1'' ^^ Suc k) (burst n)) ''s1''
           = Some \<lparr>sent = Suc k, lastReset = 1\<rparr>
       \<and> queue_of ((worker_iteration one_ms ''s1'' ^^ Suc k) (burst n)) ''s1''
           = map (\<lambda>i. text_item (show_nat i) 0) [Suc k..<n]
       \<and> queue_log ((worker_iteration one_ms ''s1'' ^^ Suc k) (burst n))
           = map (\<lambda>i. LogSent (show_nat i)) [0..<Suc k]
       \<and> map fst (attempt_log ((worker_iteration one_ms ''s1'' ^^ Suc k) (burst n)))
           = map (\<lambda>i. 3001 * i) [0..<Suc k]"
  using assms
proof (induction k)
  case 0
  let ?st = "burst n"
  have q: "queue_of ?st ''s1'' = text_item (show_nat 0) 0
             # map (\<lambda>i. text_item (show_nat i) 0) [Suc 0..<n]"
    using 0 by (simp add: burst_queue upt_conv_Cons)
  have ty: "item_type (text_item (show_nat 0) 0) = Some ''text''" by (simp add: text_item_def)
  have t: "shouldThrottle ''s1'' ?st = (False, ?st)"
    by (simp add: shouldThrottle_def burst_def idle_queue_def)
  have s0: "stats ?st ''s1'' = None" "mq_clock ?st = 0" "queue_log ?st = []" "attempt_log ?st = []"
    by (simp_all add: burst_def idle_queue_def)
  from one_ms_pass [OF q ty t] s0 show ?case
    by (simp add: text_item_def)
next
  case (Suc k)
  define st where "st = (worker_iteration one_ms ''s1'' ^^ Suc k) (burst n)"
  from Suc have "mq_clock st = 3001 * Suc k
       \<and> stats st ''s1'' = Some \<lparr>sent = Suc k, lastReset = 1\<rparr>
       \<and> queue_of st ''s1'' = map (\<lambda>i. text_item (show_nat i) 0) [Suc k..<n]
       \<and> queue_log st = map (\<lambda>i. LogSent (show_nat i)) [0..<Suc k]
       \<and> map fst (attempt_log st) = map (\<lambda>i. 3001 * i) [0..<Suc k]"
    unfolding st_def by simp
  then have ih: "mq_clock st = 3001 * Suc k"
    "stats st ''s1'' = Some \<lparr>sent = Suc k, lastReset = 1\<rparr>"
    "queue_of st ''s1'' = map (\<lambda>i. text_item (show_nat i) 0) [Suc k..<n]"
    "queue_log st = map (\<lambda>i. LogSent (show_nat i)) [0..<Suc k]"
    "map fst (attempt_log st) = map (\<lambda>i. 3001 * i) [0..<Suc k]"
    by simp_all
  have q: "queue_of st ''s1'' = text_item (show_nat (Suc k)) 0
             # map (\<lambda>i. text_item (show_nat i) 0) [Suc (Suc k)..<n]"
    using Suc.prems by (simp add: ih(3) upt_conv_Cons)
  have ty: "item_type (text_item (show_nat (Suc k)) 0) = Some ''text''"
    by (simp add: text_item_def)
  have t: "shouldThrottle ''s1'' st = (False, st)"
    using Suc.prems(1) by (simp add: shouldThrottle_def ih(1,2) messagesPerMinute_def)
  have step: "(worker_iteration one_ms ''s1'' ^^ Suc (Suc k)) (burst n)
                = worker_iteration one_ms ''s1'' st"
    unfolding st_def by simp
  from one_ms_pass [OF q ty t] ih show ?case
    unfolding step by (simp add: text_item_def)
qed


text \<open>
  C6 (as stated): after exactly 20 sends within a 60-second window the throttle check
  reports exhaustion for the 21st send and the worker sleeps 60 seconds. It fails as
  soon as a send takes time: with 21 messages queued at time 0 and every send taking
  1 ms, the first 20 sends start between 0 and 57.019 s, the counter stands at 20 when
  the 21st is checked at 60.020 s, the window opened at 1 ms is then older than a
  minute, so the check resets the counter and answers no; the 21st send starts at
  60.020 s and the log has no rate-limit line.
\<close>

theorem burst_of_21_is_not_throttled:
  "sent_count ((worker_iteration one_ms ''s1'' ^^ 20) (burst 21)) ''s1'' = 20
   \<and> map fst (attempt_log ((worker_iteration one_ms ''s1'' ^^ 20) (burst 21)))
       = map (\<lambda>i. 3001 * i) [0..<20]
   \<and> mq_clock ((worker_iteration one_ms ''s1'' ^^ 20) (burst 21)) = 60020
   \<and> \<not> fst (shouldThrottle ''s1'' ((worker_iteration one_ms ''s1'' ^^ 20) (burst 21)))
   \<and> map fst (attempt_log ((worker_iteration one_ms ''s1'' ^^ 21) (burst 21)))
       = map (\<lambda>i. 3001 * i) [0..<21]
   \<and> queue_of ((worker_iteration one_ms ''s1'' ^^ 21) (burst 21)) ''s1'' = []
   \<and> LogRateLimit ''s1'' \<notin> set (queue_log ((worker_iteration one_ms ''s1'' ^^ 21) (burst 21)))"
proof -
  define st where "st = (worker_iteration one_ms ''s1'' ^^ 20) (burst 21)"
  have e: "st = (worker_iteration one_ms ''s1'' ^^ Suc 19) (burst 21)"
    unfolding st_def by (simp only: Suc_numeral) simp
  have lt: "(19::nat) < 20" "(19::nat) < 21" by simp_all
  from burst_run [OF lt] have inv: "mq_clock st = 3001 * Suc 19"
    "stats st ''s1'' = Some \<lparr>sent = Suc 19, lastReset = 1\<rparr>"
    "queue_of st ''s1'' = map (\<lambda>i. text_item (show_nat i) 0) [Suc 19..<21]"
    "queue_log st = map (\<lambda>i. LogSent (show_nat i)) [0..<Suc 19]"
    "map fst (attempt_log st) = map (\<lambda>i. 3001 * i) [0..<Suc 19]"
    unfolding e by blast+
  have c: "mq_clock st = 60020" using inv(1) by simp
  have q: "queue_of st ''s1'' = text_item (show_nat 20) 0 # []"
    using inv(3) by (simp add: upt_conv_Cons)
  have ty: "item_type (text_item (show_nat 20) 0) = Some ''text''" by (simp add: text_item_def)
  have t: "shouldThrottle ''s1'' st
             = (False, st\<lparr>stats := (stats st)(''s1'' \<mapsto> \<lparr>sent = 0, lastReset = 60020\<rparr>)\<rparr>)"
    by (simp add: shouldThrottle_def inv(2) c)
  have step: "(worker_iteration one_ms ''s1'' ^^ 21) (burst 21) = worker_iteration one_ms ''s1'' st"
  proof -
    have "(21::nat) = Suc 20" by simp
    then show ?thesis unfolding st_def by (simp only: funpow.simps o_apply)
  qed
  note p = one_ms_pass [OF q ty t]
  have a: "sent_count st ''s1'' = 20" by (simp add: sent_count_def inv(2))
  have b: "map fst (attempt_log st) = map (\<lambda>i. 3001 * i) [0..<20]"
    using inv(5) by simp
  have d: "map fst (attempt_log (worker_iteration one_ms ''s1'' st))
             = map (\<lambda>i. 3001 * i) [0..<21]"
  proof -
    have "[0..<21] = [0..<20] @ [20::nat]"
      using upt_Suc_append [of 0 20] by simp
    then show ?thesis by (simp add: p(5) b c)
  qed
  have l: "LogRateLimit ''s1'' \<notin> set (queue_log (worker_iteration one_ms ''s1'' st))"
    by (auto simp: p(4) inv(4))
  show ?thesis
    unfolding step unfolding st_def [symmetric]
    using a b c t d p(2) l by simp
qed


text \<open>
  C6 (amended): the limiter is a counter over a fixed window, not an evenly refilling
  bucket. With a counter \<open>(sent, lastReset)\<close> and a non-empty queue: a check not later than
  60 s after \<open>lastReset\<close> with \<open>sent \<ge> 20\<close> reports exhaustion, and the worker logs it,
  waits 60 s without trying or removing the head, and (when the window had opened before
  that check) the next check answers no and puts the counter back to 0 at once; a check
  not later than 60 s after \<open>lastReset\<close> with \<open>sent < 20\<close> answers no; a check later than
  that answers no and resets the counter, whatever was counted.
\<close>

theorem throttle_fixed_window:
  assumes s: "stats st sid = Some s" and q: "queue_of st sid = m # rest"
  shows "(mq_clock st \<le> lastReset s + 60000 \<and> 20 \<le> sent s \<longrightarrow>
            shouldThrottle sid st = (True, st)
          \<and> worker_iteration tr sid st = delay 60000 (log_event (LogRateLimit sid) st)
          \<and> queue_of (worker_iteration tr sid st) sid = m # rest
          \<and> attempt_log (worker_iteration tr sid st) = attempt_log st
          \<and> mq_clock (worker_iteration tr sid st) = mq_clock st + 60000
          \<and> (lastReset s < mq_clock st \<longrightarrow>
                shouldThrottle sid (worker_iteration tr sid st)
                  = (False, (worker_iteration tr sid st)
                       \<lparr>stats := (stats st)(sid \<mapsto>
                          \<lparr>sent = 0, lastReset = mq_clock st + 60000\<rparr>)\<rparr>)))
       \<and> (mq_clock st \<le> lastReset s + 60000 \<and> sent s < 20 \<longrightarrow>
            shouldThrottle sid st = (False, st))
       \<and> (lastReset s + 60000 < mq_clock st \<longrightarrow>
            shouldThrottle sid st
              = (False, st\<lparr>stats := (stats st)(sid \<mapsto> \<lparr>sent = 0, lastReset = mq_clock st\<rparr>)\<rparr>))"
proof -
  have open_full: "shouldThrottle sid st = (True, st)"
    if "mq_clock st \<le> lastReset s + 60000" "20 \<le> sent s"
    using that by (simp add: shouldThrottle_def s messagesPerMinute_def)
  have open_free: "shouldThrottle sid st = (False, st)"
    if "mq_clock st \<le> lastReset s + 60000" "sent s < 20"
    using that by (simp add: shouldThrottle_def s messagesPerMinute_def)
  have stale: "shouldThrottle sid st
              = (False, st\<lparr>stats := (stats st)(sid \<mapsto> \<lparr>sent = 0, lastReset = mq_clock st\<rparr>)\<rparr>)"
    if "lastReset s + 60000 < mq_clock st"
    using that by (simp add: shouldThrottle_def s)
  have sleep: "worker_iteration tr sid st = delay 60000 (log_event (LogRateLimit sid) st)"
    if "mq_clock st \<le> lastReset s + 60000" "20 \<le> sent s"
    using worker_iteration_throttled [OF q open_full [OF that]] .
  have again: "shouldThrottle sid (delay 60000 (log_event (LogRateLimit sid) st))
                  = (False, (delay 60000 (log_event (LogRateLimit sid) st))
                       \<lparr>stats := (stats st)(sid \<mapsto>
                          \<lparr>sent = 0, lastReset = mq_clock st + 60000\<rparr>)\<rparr>)"
    if "lastReset s < mq_clock st"
    using that by (simp add: shouldThrottle_def delay_def log_event_def s)
  have frame: "queue_of (delay 60000 (log_event (LogRateLimit sid) st)) sid = m # rest"
    "attempt_log (delay 60000 (log_event (LogRateLimit sid) st)) = attempt_log st"
    "mq_clock (delay 60000 (log_event (LogRateLimit sid) st)) = mq_clock st + 60000"
    using q by (simp_all add: queue_of_def delay_def log_event_def)
  show ?thesis
    using open_full open_free stale sleep again frame by simp
qed

text \<open>
  C6 (amended) at a full counter: checked 60 s after the window opened the worker waits
  until 120 s and is then let through; checked at 60.001 s it is let through at once.
\<close>

theorem throttle_fixed_window_witness:
  "shouldThrottle ''s1'' (counted 20 0 60000) = (True, counted 20 0 60000)
   \<and> mq_clock (worker_iteration one_ms ''s1'' (counted 20 0 60000)) = 120000
   \<and> attempt_log (worker_iteration one_ms ''s1'' (counted 20 0 60000)) = []
   \<and> \<not> fst (shouldThrottle ''s1'' (worker_iteration one_ms ''s1'' (counted 20 0 60000)))
   \<and> \<not> fst (shouldThrottle ''s1'' (counted 20 0 60001))"
proof -
  have s: "stats (counted k opened now) ''s1'' = Some \<lparr>sent = k, lastReset = opened\<rparr>"
    for k opened now by (simp add: counted_def)
  have q: "queue_of (counted k opened now) ''s1'' = text_item (show_nat 0) 0 # []"
    for k opened now by (simp add: counted_def burst_def queue_of_def)
  have c: "mq_clock (counted k opened now) = now" "attempt_log (counted k opened now) = []"
    for k opened now by (simp_all add: counted_def burst_def idle_queue_def)
  from throttle_fixed_window [OF s q, of 20 0 60000 one_ms]
       throttle_fixed_window [OF s q, of 20 0 60001 one_ms]
  show ?thesis by (auto simp: c)
qed

lemma sent_count_updateStats: "sent_count (updateStats sid st) sid = sent_count st sid + 1"
  by (simp add: sent_count_def updateStats_def Let_def split: option.splits)

lemma sendImmediate_ok:
  assumes "fst (sendImmediate tr sid jid content st) = Inr ()"
  shows "snd (sendImmediate tr sid jid content st)
           = updateStats sid (snd (session_send tr (log_event (LogBypass sid jid) st)))"
  using assms by (simp add: sendImmediate_def split: prod.splits sum.splits)

text \<open>The throttle check some time after a state that holds a counter.\<close>

lemma shouldThrottle_later:
  assumes "stats st sid = Some c"
  shows "mq_clock st + ms \<le> lastReset c + 60000 \<Longrightarrow>
           shouldThrottle sid (delay ms st) = (20 \<le> sent c, delay ms st)"
    and "lastReset c + 60000 < mq_clock st + ms \<Longrightarrow>
           shouldThrottle sid (delay ms st)
             = (False, (delay ms st)\<lparr>stats := (stats st)(sid \<mapsto>
                  \<lparr>sent = 0, lastReset = mq_clock st + ms\<rparr>)\<rparr>)"
  using assms by (simp_all add: shouldThrottle_def delay_def messagesPerMinute_def)

lemma sendImmediate_counter:
  assumes ok: "fst (sendImmediate tr sid jid content st) = Inr ()"
  shows "stats (snd (sendImmediate tr sid jid content st)) sid
           = Some (case stats st sid of
                     Some s \<Rightarrow> s\<lparr>sent := sent s + 1\<rparr>
                   | None \<Rightarrow> \<lparr>sent = 1,
                        lastReset = mq_clock (snd (sendImmediate tr sid jid content st))\<rparr>)"
proof -
  let ?st1 = "snd (session_send tr (log_event (LogBypass sid jid) st))"
  have s1: "stats ?st1 sid = stats st sid"
    by (simp add: session_send_frame log_event_def)
  show ?thesis
    by (simp add: sendImmediate_ok [OF ok] updateStats_def Let_def s1 split: option.splits)
qed

lemma worker_iteration_counter:
  assumes q: "queue_of st sid = m # rest" and t: "shouldThrottle sid st = (False, st1)"
    and s: "sendMessage tr sid m st1 = (Inr u, st2)"
  shows "stats (worker_iteration tr sid st) sid
           = Some (case stats st1 sid of
                     Some s \<Rightarrow> s\<lparr>sent := sent s + 1\<rparr>
                   | None \<Rightarrow> \<lparr>sent = 1, lastReset = mq_clock st2\<rparr>)"
    and "mq_clock (worker_iteration tr sid st) = mq_clock st2 + 3000"
proof -
  have st2: "st2 = snd (sendMessage tr sid m st1)" using s by simp
  have s2: "stats st2 sid = stats st1 sid" by (simp add: st2 sendMessage_frame)
  show "stats (worker_iteration tr sid st) sid
           = Some (case stats st1 sid of
                     Some s \<Rightarrow> s\<lparr>sent := sent s + 1\<rparr>
                   | None \<Rightarrow> \<lparr>sent = 1, lastReset = mq_clock st2\<rparr>)"
    by (simp add: worker_iteration_success [OF q t s] delay_def log_event_def updateStats_def
          Let_def s2 split: option.splits)
  show "mq_clock (worker_iteration tr sid st) = mq_clock st2 + 3000"
    by (simp add: worker_iteration_success [OF q t s] delay_def log_event_def updateStats_def
          Let_def delayBetweenMessages_def)
qed

text \<open>
  C10 (as stated): every successful send, immediate ones included, is counted, and an
  immediate send reduces the budget of the queued sends that follow in the same
  60-second window. The last part fails when the counter's window is stale: with 19
  sends counted in a window that opened at 0 and the clock at 100 s, an immediate send
  brings the counter to 20, yet the check for a queued send 1 ms later finds
  \<^verbatim>\<open>lastReset\<close> older than a minute, answers no and sets the counter to 0, exactly as it
  would have without the immediate send; the queued send is then counted as the first.
\<close>

theorem immediate_send_on_stale_window_is_wiped:
  "fst (sendImmediate one_ms ''s1'' ''972501234567@s.whatsapp.net'' ''urgent''
       (counted 19 0 100000)) = Inr ()
   \<and> sent_count (snd (sendImmediate one_ms ''s1'' ''972501234567@s.whatsapp.net'' ''urgent''
       (counted 19 0 100000))) ''s1'' = 20
   \<and> mq_clock (snd (sendImmediate one_ms ''s1'' ''972501234567@s.whatsapp.net'' ''urgent''
       (counted 19 0 100000))) = 100001
   \<and> \<not> fst (shouldThrottle ''s1'' (snd (sendImmediate one_ms ''s1''
       ''972501234567@s.whatsapp.net'' ''urgent'' (counted 19 0 100000))))
   \<and> stats (snd (shouldThrottle ''s1'' (snd (sendImmediate one_ms ''s1''
       ''972501234567@s.whatsapp.net'' ''urgent'' (counted 19 0 100000))))) ''s1''
       = Some \<lparr>sent = 0, lastReset = 100001\<rparr>
   \<and> stats (snd (shouldThrottle ''s1'' (delay 1 (counted 19 0 100000)))) ''s1''
       = Some \<lparr>sent = 0, lastReset = 100001\<rparr>
   \<and> sent_count (worker_iteration one_ms ''s1'' (snd (sendImmediate one_ms ''s1''
       ''972501234567@s.whatsapp.net'' ''urgent'' (counted 19 0 100000)))) ''s1'' = 1"
  by (simp add: sendImmediate_def session_send_def one_ms_def updateStats_def Let_def
        log_event_def counted_def burst_def idle_queue_def sent_count_def shouldThrottle_def
        delay_def worker_iteration_def queue_of_def sendMessage_def text_item_def
        messagesPerMinute_def delayBetweenMessages_def)

text \<open>
  C10 (amended): a successful \<^verbatim>\<open>sendImmediate\<close> and a successful send of the worker each
  leave the session's counter with \<^verbatim>\<open>sent\<close> one higher, or, when there was none, with a new
  counter \<^verbatim>\<open>{ sent: 1, lastReset: t }\<close> where \<open>t\<close> is the time the send returned. The
  throttle check reads that same counter: made any time up to 60 s after the counter's
  \<^verbatim>\<open>lastReset\<close> it reports exhaustion exactly when the count, this send included, has
  reached 20; made later than that it answers no and sets the counter to 0, so the send
  no longer counts.
\<close>

theorem sends_counted_while_window_open:
  "(\<forall>st' c. fst (sendImmediate tr sid jid content st) = Inr ()
        \<and> st' = snd (sendImmediate tr sid jid content st)
        \<and> c = (case stats st sid of
                 Some s \<Rightarrow> s\<lparr>sent := sent s + 1\<rparr>
               | None \<Rightarrow> \<lparr>sent = 1, lastReset = mq_clock st'\<rparr>) \<longrightarrow>
      stats st' sid = Some c
    \<and> sent_count st' sid = sent_count st sid + 1
    \<and> (\<forall>ms. mq_clock st' + ms \<le> lastReset c + 60000 \<longrightarrow>
           shouldThrottle sid (delay ms st') = (20 \<le> sent c, delay ms st'))
    \<and> (\<forall>ms. lastReset c + 60000 < mq_clock st' + ms \<longrightarrow>
           shouldThrottle sid (delay ms st')
             = (False, (delay ms st')\<lparr>stats := (stats st')(sid \<mapsto>
                  \<lparr>sent = 0, lastReset = mq_clock st' + ms\<rparr>)\<rparr>)))
   \<and> (\<forall>m rest st1 st2 u st' c.
         queue_of st sid = m # rest \<and> shouldThrottle sid st = (False, st1)
           \<and> sendMessage tr sid m st1 = (Inr u, st2)
           \<and> st' = worker_iteration tr sid st
           \<and> c = (case stats st1 sid of
                    Some s \<Rightarrow> s\<lparr>sent := sent s + 1\<rparr>
                  | None \<Rightarrow> \<lparr>sent = 1, lastReset = mq_clock st2\<rparr>) \<longrightarrow>
      stats st' sid = Some c
    \<and> sent_count st' sid = sent_count st1 sid + 1
    \<and> (\<forall>ms. mq_clock st' + ms \<le> lastReset c + 60000 \<longrightarrow>
           shouldThrottle sid (delay ms st') = (20 \<le> sent c, delay ms st'))
    \<and> (\<forall>ms. lastReset c + 60000 < mq_clock st' + ms \<longrightarrow>
           shouldThrottle sid (delay ms st')
             = (False, (delay ms st')\<lparr>stats := (stats st')(sid \<mapsto>
                  \<lparr>sent = 0, lastReset = mq_clock st' + ms\<rparr>)\<rparr>)))"
proof (intro conjI)
  show "\<forall>st' c. fst (sendImmediate tr sid jid content st) = Inr ()
        \<and> st' = snd (sendImmediate tr sid jid content st)
        \<and> c = (case stats st sid of
                 Some s \<Rightarrow> s\<lparr>sent := sent s + 1\<rparr>
               | None \<Rightarrow> \<lparr>sent = 1, lastReset = mq_clock st'\<rparr>) \<longrightarrow>
      stats st' sid = Some c
    \<and> sent_count st' sid = sent_count st sid + 1
    \<and> (\<forall>ms. mq_clock st' + ms \<le> lastReset c + 60000 \<longrightarrow>
           shouldThrottle sid (delay ms st') = (20 \<le> sent c, delay ms st'))
    \<and> (\<forall>ms. lastReset c + 60000 < mq_clock st' + ms \<longrightarrow>
           shouldThrottle sid (delay ms st')
             = (False, (delay ms st')\<lparr>stats := (stats st')(sid \<mapsto>
                  \<lparr>sent = 0, lastReset = mq_clock st' + ms\<rparr>)\<rparr>))"
  proof (intro allI impI)
    fix st' c
    assume a: "fst (sendImmediate tr sid jid content st) = Inr ()
        \<and> st' = snd (sendImmediate tr sid jid content st)
        \<and> c = (case stats st sid of
                 Some s \<Rightarrow> s\<lparr>sent := sent s + 1\<rparr>
               | None \<Rightarrow> \<lparr>sent = 1, lastReset = mq_clock st'\<rparr>)"
    then have ok: "fst (sendImmediate tr sid jid content st) = Inr ()"
      and st': "st' = snd (sendImmediate tr sid jid content st)"
      and c: "c = (case stats st sid of
                 Some s \<Rightarrow> s\<lparr>sent := sent s + 1\<rparr>
               | None \<Rightarrow> \<lparr>sent = 1, lastReset = mq_clock st'\<rparr>)"
      by simp_all
    have sc: "stats st' sid = Some c"
      unfolding c st' by (rule sendImmediate_counter [OF ok])
    have n: "sent_count st' sid = sent_count st sid + 1"
      using sc c by (simp add: sent_count_def split: option.splits)
    show "stats st' sid = Some c
      \<and> sent_count st' sid = sent_count st sid + 1
      \<and> (\<forall>ms. mq_clock st' + ms \<le> lastReset c + 60000 \<longrightarrow>
           shouldThrottle sid (delay ms st') = (20 \<le> sent c, delay ms st'))
      \<and> (\<forall>ms. lastReset c + 60000 < mq_clock st' + ms \<longrightarrow>
           shouldThrottle sid (delay ms st')
             = (False, (delay ms st')\<lparr>stats := (stats st')(sid \<mapsto>
                  \<lparr>sent = 0, lastReset = mq_clock st' + ms\<rparr>)\<rparr>))"
      using sc n shouldThrottle_later [OF sc] by (intro conjI allI impI)
  qed
  show "\<forall>m rest st1 st2 u st' c.
         queue_of st sid = m # rest \<and> shouldThrottle sid st = (False, st1)
           \<and> sendMessage tr sid m st1 = (Inr u, st2)
           \<and> st' = worker_iteration tr sid st
           \<and> c = (case stats st1 sid of
                    Some s \<Rightarrow> s\<lparr>sent := sent s + 1\<rparr>
                  | None \<Rightarrow> \<lparr>sent = 1, lastReset = mq_clock st2\<rparr>) \<longrightarrow>
      stats st' sid = Some c
    \<and> sent_count st' sid = sent_count st1 sid + 1
    \<and> (\<forall>ms. mq_clock st' + ms \<le> lastReset c + 60000 \<longrightarrow>
           shouldThrottle sid (delay ms st') = (20 \<le> sent c, delay ms st'))
    \<and> (\<forall>ms. lastReset c + 60000 < mq_clock st' + ms \<longrightarrow>
           shouldThrottle sid (delay ms st')
             = (False, (delay ms st')\<lparr>stats := (stats st')(sid \<mapsto>
                  \<lparr>sent = 0, lastReset = mq_clock st' + ms\<rparr>)\<rparr>))"
  proof (intro allI impI)
    fix m rest st1 st2 u st' c
    assume a: "queue_of st sid = m # rest \<and> shouldThrottle sid st = (False, st1)
           \<and> sendMessage tr sid m st1 = (Inr u, st2)
           \<and> st' = worker_iteration tr sid st
           \<and> c = (case stats st1 sid of
                    Some s \<Rightarrow> s\<lparr>sent := sent s + 1\<rparr>
                  | None \<Rightarrow> \<lparr>sent = 1, lastReset = mq_clock st2\<rparr>)"
    then have q: "queue_of st sid = m # rest" and t: "shouldThrottle sid st = (False, st1)"
      and s: "sendMessage tr sid m st1 = (Inr u, st2)"
      and st': "st' = worker_iteration tr sid st"
      and c: "c = (case stats st1 sid of
                    Some s \<Rightarrow> s\<lparr>sent := sent s + 1\<rparr>
                  | None \<Rightarrow> \<lparr>sent = 1, lastReset = mq_clock st2\<rparr>)"
      by simp_all
    have sc: "stats st' sid = Some c"
      unfolding c st' by (rule worker_iteration_counter(1) [OF q t s])
    have n: "sent_count st' sid = sent_count st1 sid + 1"
      using sc c by (simp add: sent_count_def split: option.splits)
    show "stats st' sid = Some c
      \<and> sent_count st' sid = sent_count st1 sid + 1
      \<and> (\<forall>ms. mq_clock st' + ms \<le> lastReset c + 60000 \<longrightarrow>
           shouldThrottle sid (delay ms st') = (20 \<le> sent c, delay ms st'))
      \<and> (\<forall>ms. lastReset c + 60000 < mq_clock st' + ms \<longrightarrow>
           shouldThrottle sid (delay ms st')
             = (False, (delay ms st')\<lparr>stats := (stats st')(sid \<mapsto>
                  \<lparr>sent = 0, lastReset = mq_clock st' + ms\<rparr>)\<rparr>))"
      using sc n shouldThrottle_later [OF sc] by (intro conjI allI impI)
  qed
qed


text \<open>
  C10 (amended) at a counter of 19 in a window opened at 0, at time 1 s: an immediate
  send brings it to 20, a check 2 s later throttles and one 60 s later does not; an
  immediate send without a counter creates one with \<^verbatim>\<open>sent = 1\<close>; a queued send brings
  the counter to 20 as well and the next check throttles.
\<close>

theorem sends_counted_while_window_open_witness:
  "sent_count (snd (sendImmediate one_ms ''s1'' ''972501234567@s.whatsapp.net'' ''urgent''
       (counted 19 0 1000))) ''s1'' = 20
   \<and> fst (shouldThrottle ''s1'' (delay 2000 (snd (sendImmediate one_ms ''s1''
       ''972501234567@s.whatsapp.net'' ''urgent'' (counted 19 0 1000)))))
   \<and> \<not> fst (shouldThrottle ''s1'' (delay 60000 (snd (sendImmediate one_ms ''s1''
       ''972501234567@s.whatsapp.net'' ''urgent'' (counted 19 0 1000)))))
   \<and> stats (snd (sendImmediate one_ms ''s1'' ''972501234567@s.whatsapp.net'' ''urgent''
       idle_queue)) ''s1'' = Some \<lparr>sent = 1, lastReset = 1\<rparr>
   \<and> sent_count (worker_iteration one_ms ''s1'' (counted 19 0 1000)) ''s1'' = 20
   \<and> fst (shouldThrottle ''s1'' (delay 2000 (worker_iteration one_ms ''s1''
       (counted 19 0 1000))))"
proof -
  let ?j = "''972501234567@s.whatsapp.net''"
  let ?st = "counted 19 0 1000"
  have ok: "fst (sendImmediate one_ms ''s1'' ?j ''urgent'' st) = Inr ()" for st
    by (simp add: sendImmediate_def session_send_def one_ms_def)
  have ck: "mq_clock (snd (sendImmediate one_ms ''s1'' ?j ''urgent'' st)) = mq_clock st + 1" for st
    by (simp add: sendImmediate_def session_send_def one_ms_def updateStats_def Let_def
          log_event_def)
  have s: "stats ?st ''s1'' = Some \<lparr>sent = 19, lastReset = 0\<rparr>" "mq_clock ?st = 1000"
    "sent_count ?st ''s1'' = 19"
    by (simp_all add: counted_def sent_count_def)
  have b: "stats idle_queue ''s1'' = None" "mq_clock idle_queue = 0"
    by (simp_all add: idle_queue_def)
  have q: "queue_of ?st ''s1'' = text_item (show_nat 0) 0 # []"
    by (simp add: counted_def burst_def queue_of_def)
  have t: "shouldThrottle ''s1'' ?st = (False, ?st)"
    by (simp add: shouldThrottle_def s counted_def messagesPerMinute_def)
  have m: "sendMessage one_ms ''s1'' (text_item (show_nat 0) 0) ?st
             = (Inr (), snd (sendMessage one_ms ''s1'' (text_item (show_nat 0) 0) ?st))"
    by (simp add: sendMessage_def session_send_def one_ms_def text_item_def Let_def)
  have mc: "mq_clock (snd (sendMessage one_ms ''s1'' (text_item (show_nat 0) 0) ?st)) = 1001"
    by (simp add: sendMessage_def session_send_def one_ms_def text_item_def Let_def s)
  have wc: "mq_clock (worker_iteration one_ms ''s1'' ?st) = 4001"
    using worker_iteration_counter(2) [OF q t m] mc by simp
  note i1 = sends_counted_while_window_open [THEN conjunct1, rule_format,
      OF conjI [OF ok conjI [OF refl refl]], of ?st]
  note i2 = sends_counted_while_window_open [THEN conjunct1, rule_format,
      OF conjI [OF ok conjI [OF refl refl]], of idle_queue]
  note w = sends_counted_while_window_open [THEN conjunct2, rule_format,
      OF conjI [OF q conjI [OF t conjI [OF m conjI [OF refl refl]]]]]
  note open_i = i1 [THEN conjunct2, THEN conjunct2, THEN conjunct1, rule_format, of 2000]
  note stale_i = i1 [THEN conjunct2, THEN conjunct2, THEN conjunct2, rule_format, of 60000]
  note open_w = w [THEN conjunct2, THEN conjunct2, THEN conjunct1, rule_format, of 2000]
  from i1 [THEN conjunct2, THEN conjunct1] i2 [THEN conjunct1]
       w [THEN conjunct2, THEN conjunct1] open_i stale_i open_w
  show ?thesis
    by (simp add: ck s b wc mc)
qed

section \<open>Verification: webhook retries\<close>

lemma pick_earliest_None: "pick_earliest f ts = None \<longleftrightarrow> ts = []"
  by (induction ts) (auto split: option.splits)

lemma pick_earliest_Some:
  "pick_earliest f ts = Some (t, rest) \<Longrightarrow> t \<in> set ts \<and> set rest \<subseteq> set ts"
proof (induction ts arbitrary: t rest)
  case Nil
  then show ?case by simp
next
  case (Cons a ts)
  show ?case
  proof (cases "pick_earliest f ts")
    case None
    with Cons.prems show ?thesis by simp
  next
    case (Some p)
    obtain t' rest' where p: "p = (t', rest')" by (cases p)
    from Cons.IH [of t' rest'] Some p
    have ih: "t' \<in> set ts" "set rest' \<subseteq> set ts" by simp_all
    from Cons.prems Some p ih show ?thesis
      by (auto split: if_splits)
  qed
qed

lemma deliverable_logWebhook: "deliverable oid (logWebhook entry d) = deliverable oid d"
  by (simp add: deliverable_def logWebhook_def split: option.splits)

lemma deliverable_update_message_rows:
  "update_message_rows mid f d = Inr d' \<Longrightarrow> deliverable oid d' = deliverable oid d"
  by (auto simp: deliverable_def update_message_rows_def split: option.splits)

lemma scheduleRetry_frame:
  "posts (snd (scheduleRetry oid md rc st)) = posts st"
  "deliverable oid' (ghl_pool (snd (scheduleRetry oid md rc st))) = deliverable oid' (ghl_pool st)"
  "\<exists>new. ghl_timers (snd (scheduleRetry oid md rc st)) = ghl_timers st @ new
         \<and> (\<forall>t \<in> set new. retry_org t = oid)"
  by (auto simp: scheduleRetry_def deliverable_update_message_rows
        split: option.splits sum.splits)

lemma scheduleRetry_first:
  "ghl_timers (snd (scheduleRetry oid md 0 st)) = ghl_timers st @
     [\<lparr>fires_at = ghl_clock st + 2000, retry_org = oid, retry_message = md, retryCount = 0\<rparr>]"
  by (simp add: scheduleRetry_def maxRetries_def retryDelay_def)

lemma send_failed_effect:
  "posts (snd (send_failed oid md url rs err st)) = posts st"
  "deliverable oid' (ghl_pool (snd (send_failed oid md url rs err st)))
     = deliverable oid' (ghl_pool st)"
  "ghl_timers (snd (send_failed oid md url rs err st)) = ghl_timers st @
     [\<lparr>fires_at = ghl_clock st + 2000, retry_org = oid, retry_message = md, retryCount = 0\<rparr>]"
  "fst (send_failed oid md url rs err st) = Inl err"
  by (simp_all add: send_failed_def Let_def scheduleRetry_frame scheduleRetry_first
        deliverable_logWebhook)

text \<open>
  A send to an endpoint that fails: one POST more, one retry timer more (with count 0),
  and the error is thrown.
\<close>

lemma sendMessageToGHL_fails:
  assumes ep: "always_fails ep" and d: "deliverable oid (ghl_pool st)"
  shows "length (posts (snd (sendMessageToGHL ep oid md st))) = length (posts st) + 1"
    and "deliverable oid (ghl_pool (snd (sendMessageToGHL ep oid md st)))"
    and "ghl_timers (snd (sendMessageToGHL ep oid md st)) = ghl_timers st @
           [\<lparr>fires_at = ghl_clock st + 2000, retry_org = oid, retry_message = md,
             retryCount = 0\<rparr>]"
    and "\<exists>err. fst (sendMessageToGHL ep oid md st) = Inl err"
proof -
  from d obtain org url where
    f: "db_fault (ghl_pool st) = None"
    and o: "find (\<lambda>org. org_id org = oid) (organizations (ghl_pool st)) = Some org"
    and u: "webhook_url org = Some url" "url \<noteq> []"
    by (auto simp: deliverable_def split: option.splits)
  have g: "getOrgConfig oid (ghl_pool st) = Inr org"
    by (simp add: getOrgConfig_def f o)
  let ?st1 = "st\<lparr>posts := posts st @
       [\<lparr>post_at = ghl_clock st, post_url = url,
         post_body = \<lparr>payload_from = formatPhoneNumber (md_from_number md),
                       payload_to = formatPhoneNumber (md_to_number md),
                       payload_message = md_text md,
                       payload_messageId = md_message_id md\<rparr>\<rparr>]\<rparr>"
  obtain rs err where s: "sendMessageToGHL ep oid md st = send_failed oid md url rs err ?st1"
  proof (cases "ep (length (posts st))")
    case NetworkError
    then have "sendMessageToGHL ep oid md st
                 = send_failed oid md url None ''Network Error'' ?st1"
      by (simp add: sendMessageToGHL_def g u Let_def)
    then show ?thesis by (rule that)
  next
    case (Http code rid)
    from ep have "case ep (length (posts st)) of
                    Http code _ \<Rightarrow> \<not> (200 \<le> code \<and> code < 300) | NetworkError \<Rightarrow> True"
      unfolding always_fails_def by (rule spec)
    with Http have nb: "(200 \<le> code \<and> code < 300) = False" by simp
    from Http have "sendMessageToGHL ep oid md st
                 = send_failed oid md url (Some code)
                     (''Request failed with status code '' @ show_nat code) ?st1"
      by (simp only: sendMessageToGHL_def g u Let_def nb sum.case option.case
            http_outcome.case if_False)
    then show ?thesis by (rule that)
  qed
  show "length (posts (snd (sendMessageToGHL ep oid md st))) = length (posts st) + 1"
    by (simp add: s send_failed_effect)
  show "deliverable oid (ghl_pool (snd (sendMessageToGHL ep oid md st)))"
    using d by (simp add: s send_failed_effect)
  show "ghl_timers (snd (sendMessageToGHL ep oid md st)) = ghl_timers st @
           [\<lparr>fires_at = ghl_clock st + 2000, retry_org = oid, retry_message = md,
             retryCount = 0\<rparr>]"
    by (simp add: s send_failed_effect)
  show "\<exists>err. fst (sendMessageToGHL ep oid md st) = Inl err"
    by (simp add: s send_failed_effect)
qed

text \<open>
  A retry timer that fires against a failing endpoint: one POST more, and at least one
  retry timer is pending afterwards.
\<close>

lemma retry_fire_next_fails:
  assumes ep: "always_fails ep" and d: "deliverable oid (ghl_pool st)"
    and ne: "ghl_timers st \<noteq> []" and own: "\<forall>t \<in> set (ghl_timers st). retry_org t = oid"
  shows "length (posts (retry_fire_next ep st)) = length (posts st) + 1"
    and "deliverable oid (ghl_pool (retry_fire_next ep st))"
    and "ghl_timers (retry_fire_next ep st) \<noteq> []"
    and "\<forall>t \<in> set (ghl_timers (retry_fire_next ep st)). retry_org t = oid"
proof -
  from ne obtain t ts where p: "pick_earliest fires_at (ghl_timers st) = Some (t, ts)"
    using pick_earliest_None [of fires_at "ghl_timers st"] by (cases "pick_earliest fires_at (ghl_timers st)") auto
  from pick_earliest_Some [OF p] own have t: "retry_org t = oid"
    and ts: "\<forall>t \<in> set ts. retry_org t = oid" by auto
  define st0 where "st0 = st\<lparr>ghl_timers := ts, ghl_clock := max (ghl_clock st) (fires_at t)\<rparr>"
  have d0: "deliverable oid (ghl_pool st0)" and p0: "posts st0 = posts st"
    and t0: "ghl_timers st0 = ts"
    using d by (simp_all add: st0_def)
  define st1 where "st1 = snd (sendMessageToGHL ep oid (retry_message t) st0)"
  note f = sendMessageToGHL_fails [OF ep d0, of "retry_message t"]
  from f(4) obtain err where e: "sendMessageToGHL ep oid (retry_message t) st0 = (Inl err, st1)"
    unfolding st1_def by (metis prod.collapse)
  have r: "retry_fire_next ep st = snd (scheduleRetry oid (retry_message t) (retryCount t + 1) st1)"
    by (simp add: retry_fire_next_def p retry_callback_def t e st0_def [symmetric])
  have t1: "ghl_timers st1 = ts @ [\<lparr>fires_at = ghl_clock st0 + 2000, retry_org = oid,
              retry_message = retry_message t, retryCount = 0\<rparr>]"
    using f(3) by (simp add: st1_def t0)
  from scheduleRetry_frame(3) [of oid "retry_message t" "retryCount t + 1" st1]
  obtain new where n: "ghl_timers (retry_fire_next ep st) = ghl_timers st1 @ new"
    "\<forall>t \<in> set new. retry_org t = oid" unfolding r by blast
  show "length (posts (retry_fire_next ep st)) = length (posts st) + 1"
    using f(1) by (simp add: r scheduleRetry_frame st1_def p0)
  show "deliverable oid (ghl_pool (retry_fire_next ep st))"
    using f(2) by (simp add: r scheduleRetry_frame st1_def)
  show "ghl_timers (retry_fire_next ep st) \<noteq> []"
    by (simp add: n(1) t1)
  show "\<forall>t \<in> set (ghl_timers (retry_fire_next ep st)). retry_org t = oid"
    using ts n(2) by (auto simp: n(1) t1)
qed

text \<open>
  So against an endpoint that always fails the retries never end: after the first send
  and any number \<open>n\<close> of timer firings, \<open>n + 1\<close> POSTs have been made and a retry is
  still pending.
\<close>

lemma retries_unbounded:
  assumes ep: "always_fails ep" and d: "deliverable oid (ghl_pool st)"
    and none: "ghl_timers st = []"
  shows "length (posts ((retry_fire_next ep ^^ n) (snd (sendMessageToGHL ep oid md st))))
           = length (posts st) + n + 1
       \<and> deliverable oid (ghl_pool ((retry_fire_next ep ^^ n) (snd (sendMessageToGHL ep oid md st))))
       \<and> ghl_timers ((retry_fire_next ep ^^ n) (snd (sendMessageToGHL ep oid md st))) \<noteq> []
       \<and> (\<forall>t \<in> set (ghl_timers ((retry_fire_next ep ^^ n)
                 (snd (sendMessageToGHL ep oid md st)))). retry_org t = oid)"
proof (induction n)
  case 0
  from sendMessageToGHL_fails [OF ep d, of md] none show ?case by simp
next
  case (Suc n)
  define st' where "st' = (retry_fire_next ep ^^ n) (snd (sendMessageToGHL ep oid md st))"
  from Suc have ih: "length (posts st') = length (posts st) + n + 1"
    "deliverable oid (ghl_pool st')" "ghl_timers st' \<noteq> []"
    "\<forall>t \<in> set (ghl_timers st'). retry_org t = oid"
    unfolding st'_def by simp_all
  have step: "(retry_fire_next ep ^^ Suc n) (snd (sendMessageToGHL ep oid md st))
                = retry_fire_next ep st'"
    unfolding st'_def by simp
  from retry_fire_next_fails [OF ep ih(2,3,4)] ih(1) show ?case
    unfolding step by simp
qed


text \<open>
  C2: the claim is that an inbound message whose POST fails every time is POSTed 4
  times in all (3 retries, after 2, 4 and 8 seconds) and then marked \<^verbatim>\<open>failed\<close>. The code
  does not stop: every failed \<^verbatim>\<open>sendMessageToGHL\<close>, also one called from a retry timer,
  schedules a retry with count 0 of its own, beside the retry with \<^verbatim>\<open>retryCount + 1\<close> that
  the timer's catch block schedules. For the message below and an endpoint that answers
  500, after any number \<open>n\<close> of timer firings \<open>n + 1\<close> POSTs have been made and a retry
  is still pending.
\<close>

theorem webhook_retries_never_stop:
  "\<forall>n. length (posts ((retry_fire_next always_500 ^^ n)
            (snd (sendMessageToGHL always_500 ''org1'' example_message idle_ghl)))) = n + 1
       \<and> ghl_timers ((retry_fire_next always_500 ^^ n)
            (snd (sendMessageToGHL always_500 ''org1'' example_message idle_ghl))) \<noteq> []"
proof
  fix n
  have ep: "always_fails always_500"
    by (simp add: always_fails_def always_500_def)
  have d: "deliverable ''org1'' (ghl_pool idle_ghl)"
    by (simp add: deliverable_def idle_ghl_def webhook_db_def example_db_def example_org_def)
  have none: "ghl_timers idle_ghl = []" "posts idle_ghl = []"
    by (simp_all add: idle_ghl_def)
  from retries_unbounded [OF ep d none(1), of n example_message] none(2)
  show "length (posts ((retry_fire_next always_500 ^^ n)
            (snd (sendMessageToGHL always_500 ''org1'' example_message idle_ghl)))) = n + 1
       \<and> ghl_timers ((retry_fire_next always_500 ^^ n)
            (snd (sendMessageToGHL always_500 ''org1'' example_message idle_ghl))) \<noteq> []"
    by simp
qed

text \<open>The first five POSTs go out at 0, 2, 4, 6 and 6 seconds.\<close>

lemma webhook_first_five_posts:
  "map post_at (posts (retry_fire_next always_500 (retry_fire_next always_500
     (retry_fire_next always_500 (retry_fire_next always_500
        (snd (sendMessageToGHL always_500 ''org1'' example_message idle_ghl)))))))
   = [0, 2000, 4000, 6000, 6000]"
  by (simp add: retry_fire_next_def retry_callback_def sendMessageToGHL_def send_failed_def
        scheduleRetry_def getOrgConfig_def logWebhook_def update_message_rows_def
        always_500_def idle_ghl_def webhook_db_def example_db_def example_org_def
        example_message_def maxRetries_def retryDelay_def Let_def)


end
